theory Spec2Isabelle
  imports Main "HOL-Library.Word" "HOL-Library.Signed_Division" "HOL-Library.Monad_Syntax"
begin

unbundle bit_operations_syntax

section \<open>Data model of gif.hpp\<close>

text \<open>
  Bytes are \<open>u8\<close> words. The C++ \<open>int\<close> and \<open>usize\<close> values of the palette code are
  modelled as \<open>int\<close> and \<open>nat\<close>; none of the operations embedded here on them can leave
  the machine range for arguments in the byte range. A fixed-size \<open>std::array\<close> is a
  list; reading it outside its bounds has no defined result in C++ and is \<open>None\<close> here.
  A recursion that does not return is \<open>None\<close> as well.
\<close>

type_synonym u8 = "8 word"

definition transparency_index :: int where
  "transparency_index = 0"

definition array_at :: "'a list \<Rightarrow> int \<Rightarrow> 'a option" where
  "array_at xs i = (if 0 \<le> i \<and> i < int (length xs) then Some (xs ! nat i) else None)"

text \<open>
  \<open>struct Palette\<close>: the five arrays have 256 entries each. The constructor initialises
  \<open>bit_depth\<close> only, so the arrays start with indeterminate contents.
\<close>

record Palette =
  bit_depth :: nat
  r :: "u8 list"
  g :: "u8 list"
  b :: "u8 list"
  tree_split_elt :: "u8 list"
  tree_split :: "u8 list"

text \<open>
  \<open>Palette::get_closest_pallete_color\<close>. The in/out parameters \<open>best_ind\<close> and
  \<open>best_diff\<close> are passed as a pair and returned.
\<close>

partial_function (option) get_closest_pallete_color ::
  "Palette \<Rightarrow> int \<Rightarrow> int \<Rightarrow> int \<Rightarrow> int \<times> int \<Rightarrow> int \<Rightarrow> (int \<times> int) option"
where
  "get_closest_pallete_color p rr gg bb best tree_root =
    (if tree_root > 2 ^ bit_depth p - 1 then
       (let ind = tree_root - 2 ^ bit_depth p in
        if ind = transparency_index then Some best
        else do {
          pr \<leftarrow> array_at (r p) ind;
          pg \<leftarrow> array_at (g p) ind;
          pb \<leftarrow> array_at (b p) ind;
          let r_err = rr - uint pr;
          let g_err = gg - uint pg;
          let b_err = bb - uint pb;
          let diff = \<bar>r_err\<bar> + \<bar>g_err\<bar> + \<bar>b_err\<bar>;
          if diff < snd best then Some (ind, diff) else Some best
        })
     else do {
       axis \<leftarrow> array_at (tree_split_elt p) tree_root;
       split_comp \<leftarrow> array_at [rr, gg, bb] (uint axis);
       pos \<leftarrow> array_at (tree_split p) tree_root;
       let split_pos = uint pos;
       if split_pos > split_comp then do {
         best1 \<leftarrow> get_closest_pallete_color p rr gg bb best (tree_root * 2);
         if snd best1 > split_pos - split_comp
         then get_closest_pallete_color p rr gg bb best1 (tree_root * 2 + 1)
         else Some best1
       } else do {
         best1 \<leftarrow> get_closest_pallete_color p rr gg bb best (tree_root * 2 + 1);
         if snd best1 > split_comp - split_pos
         then get_closest_pallete_color p rr gg bb best1 (tree_root * 2)
         else Some best1
       }
     })"


subsection \<open>Buffers and loops\<close>

text \<open>
  The frame buffers are reached through pointers that may alias (the writer passes its
  previous-frame buffer both as \<open>last_frame\<close> and as \<open>out_frame\<close>), so they live in an
  explicit memory: a pointer is the name of a buffer, a null pointer is \<open>None\<close>, and
  every write goes to the memory that later reads see.
\<close>

type_synonym memory = "nat \<Rightarrow> u8 list"

definition mem_read :: "memory \<Rightarrow> nat \<Rightarrow> nat \<Rightarrow> u8" where
  "mem_read m p k = m p ! k"

definition mem_write :: "memory \<Rightarrow> nat \<Rightarrow> nat \<Rightarrow> u8 \<Rightarrow> memory" where
  "mem_write m p k v = m(p := (m p)[k := v])"

text \<open>A counting \<open>for\<close> loop whose body can fail.\<close>

primrec for_each :: "nat list \<Rightarrow> (nat \<Rightarrow> 's \<Rightarrow> 's option) \<Rightarrow> 's \<Rightarrow> 's option" where
  "for_each [] body s = Some s"
| "for_each (i # rest) body s =
     (case body i s of None \<Rightarrow> None | Some s' \<Rightarrow> for_each rest body s')"



subsection \<open>Threshold quantizer\<close>

text \<open>
  \<open>threshold_image\<close>: the three pointers advance by one pixel per iteration, so in
  iteration \<open>i\<close> they address pixel \<open>i\<close> of their buffers. \<open>palettize_pixel\<close> is the
  \<open>else\<close> branch of the loop body.
\<close>

definition palettize_pixel :: "Palette \<Rightarrow> nat \<Rightarrow> nat \<Rightarrow> nat \<Rightarrow> memory \<Rightarrow> memory option" where
  "palettize_pixel pal next_frame out_frame i m = do {
     (best_ind, best_diff) \<leftarrow>
        get_closest_pallete_color pal
          (uint (mem_read m next_frame (4 * i)))
          (uint (mem_read m next_frame (4 * i + 1)))
          (uint (mem_read m next_frame (4 * i + 2)))
          (1, 1000000) 1;
     pr \<leftarrow> array_at (r pal) best_ind;
     let m = mem_write m out_frame (4 * i) pr;
     pg \<leftarrow> array_at (g pal) best_ind;
     let m = mem_write m out_frame (4 * i + 1) pg;
     pb \<leftarrow> array_at (b pal) best_ind;
     let m = mem_write m out_frame (4 * i + 2) pb;
     Some (mem_write m out_frame (4 * i + 3) (word_of_int best_ind))
   }"

definition threshold_pixel ::
  "Palette \<Rightarrow> nat option \<Rightarrow> nat \<Rightarrow> nat \<Rightarrow> nat \<Rightarrow> memory \<Rightarrow> memory option" where
  "threshold_pixel pal last_frame next_frame out_frame i m =
     (case last_frame of
        None \<Rightarrow> palettize_pixel pal next_frame out_frame i m
      | Some l \<Rightarrow>
          if mem_read m l (4 * i) = mem_read m next_frame (4 * i) \<and>
             mem_read m l (4 * i + 1) = mem_read m next_frame (4 * i + 1) \<and>
             mem_read m l (4 * i + 2) = mem_read m next_frame (4 * i + 2)
          then
            (let m = mem_write m out_frame (4 * i) (mem_read m l (4 * i));
                 m = mem_write m out_frame (4 * i + 1) (mem_read m l (4 * i + 1));
                 m = mem_write m out_frame (4 * i + 2) (mem_read m l (4 * i + 2))
             in Some (mem_write m out_frame (4 * i + 3) (word_of_int transparency_index)))
          else palettize_pixel pal next_frame out_frame i m)"

definition threshold_image ::
  "memory \<Rightarrow> nat option \<Rightarrow> nat \<Rightarrow> nat \<Rightarrow> nat \<Rightarrow> nat \<Rightarrow> Palette \<Rightarrow> memory option" where
  "threshold_image m last_frame next_frame out_frame width height pal =
     (let num_pixels = width * height
      in for_each [0..<num_pixels] (threshold_pixel pal last_frame next_frame out_frame) m)"



subsection \<open>Output file and bit stream\<close>

text \<open>
  The \<open>FILE *\<close> sink is the list of bytes written so far; \<open>fputc\<close> appends its
  argument converted to \<open>unsigned char\<close>.
\<close>

type_synonym out_file = "u8 list"

definition fputc :: "int \<Rightarrow> out_file \<Rightarrow> out_file" where
  "fputc c f = f @ [word_of_int c]"

definition fputs :: "string \<Rightarrow> out_file \<Rightarrow> out_file" where
  "fputs s f = f @ map (\<lambda>c. of_nat (of_char c)) s"

text \<open>
  \<open>struct BitStatus\<close>. \<open>bit_index\<close> is a \<open>u8\<close>, modelled as a \<open>nat\<close> with the
  wrap-around of its increment written out. \<open>chunk_index\<close> is a \<open>u32\<close> that is only
  incremented from values below 256 (a store at a larger index is outside the array,
  which is \<open>None\<close> here), so it is a \<open>nat\<close>. \<open>chunk\<close> has 256 entries and no
  initialiser.
\<close>

record BitStatus =
  bit_index :: nat
  byte :: u8
  chunk_index :: nat
  chunk :: "u8 list"

definition write_bit :: "BitStatus \<Rightarrow> 32 word \<Rightarrow> BitStatus option" where
  "write_bit s bit_arg =
     (let bit1 = bit_arg AND 1;
          bit1 = push_bit (bit_index s) bit1;
          byte' = byte s OR ucast bit1;
          bit_index' = (bit_index s + 1) mod 256
      in if bit_index' > 7 then
           (if chunk_index s < length (chunk s)
            then Some \<lparr>bit_index = 0, byte = 0, chunk_index = chunk_index s + 1,
                         chunk = (chunk s)[chunk_index s := byte']\<rparr>
            else None)
         else Some (s\<lparr>bit_index := bit_index', byte := byte'\<rparr>))"

definition write_chunk :: "out_file \<times> BitStatus \<Rightarrow> out_file \<times> BitStatus" where
  "write_chunk fs =
     (let (f, s) = fs;
          f = fputc (int (chunk_index s)) f;
          f = f @ take (chunk_index s) (chunk s)
      in (f, s\<lparr>bit_index := 0, byte := 0, chunk_index := 0\<rparr>))"

text \<open>\<open>BitStatus::write_code\<close>: the loop counter runs over \<open>length\<close> iterations.\<close>

primrec write_code :: "out_file \<times> BitStatus \<Rightarrow> 32 word \<Rightarrow> nat \<Rightarrow> (out_file \<times> BitStatus) option" where
  "write_code fs code 0 = Some fs"
| "write_code fs code (Suc n) =
     (case write_bit (snd fs) code of
        None \<Rightarrow> None
      | Some s \<Rightarrow>
          write_code (if chunk_index s = 255 then write_chunk (fst fs, s) else (fst fs, s))
            (drop_bit 1 code) n)"

text \<open>The loop \<open>while (stat.bit_index) stat.write_bit(0)\<close> at the end of a frame.\<close>

function pad_to_byte :: "BitStatus \<Rightarrow> BitStatus option" where
  "pad_to_byte s =
     (if bit_index s \<noteq> 0
      then (case write_bit s 0 of None \<Rightarrow> None | Some s' \<Rightarrow> pad_to_byte s')
      else Some s)"
  by pat_completeness auto
termination
  by (relation "measure (\<lambda>s. if bit_index s = 0 then 0 else if bit_index s \<le> 7
        then 9 - bit_index s else if bit_index s < 256 then 1 else 10)")
     (auto simp: write_bit_def Let_def mod_Suc split: if_splits)

declare pad_to_byte.simps [simp del]

subsection \<open>LZW encoder\<close>

text \<open>
  The local variables of the pixel loop of \<open>write_lzw_image\<close>. \<open>codetree\<close> is the array
  of 4096 nodes of 256 \<open>u16\<close> entries each; a node index outside it is \<open>None\<close>.
  \<open>max_code\<close> and \<open>code_size\<close> are \<open>u32\<close> counters that stay far below the word size.
\<close>

record lzw_state =
  codetree :: "nat \<Rightarrow> u8 \<Rightarrow> 16 word"
  curr_code :: int
  code_size :: nat
  max_code :: nat
  sink :: out_file
  stat :: BitStatus

definition codetree_size :: nat where
  "codetree_size = 4096"

definition lzw_pixel :: "nat \<Rightarrow> u8 \<Rightarrow> lzw_state \<Rightarrow> lzw_state option" where
  "lzw_pixel min_code_size next_value s =
     (let clear_code = (2 :: nat) ^ min_code_size
      in if curr_code s < 0 then Some (s\<lparr>curr_code := uint next_value\<rparr>)
         else if \<not> nat (curr_code s) < codetree_size then None
         else if codetree s (nat (curr_code s)) next_value \<noteq> 0
         then Some (s\<lparr>curr_code := uint (codetree s (nat (curr_code s)) next_value)\<rparr>)
         else
           (case write_code (sink s, stat s) (word_of_int (curr_code s)) (code_size s) of
              None \<Rightarrow> None
            | Some (f, st) \<Rightarrow>
               (let max_code' = max_code s + 1;
                    codetree' = (codetree s)(nat (curr_code s) :=
                                  (codetree s (nat (curr_code s)))(next_value := of_nat max_code'));
                    code_size' = (if max_code' \<ge> 2 ^ code_size s then code_size s + 1
                                  else code_size s)
                in if max_code' = 4095 then
                     (case write_code (f, st) (of_nat clear_code) code_size' of
                        None \<Rightarrow> None
                      | Some (f, st) \<Rightarrow>
                          Some \<lparr>codetree = (\<lambda>_ _. 0), curr_code = uint next_value,
                                code_size = min_code_size + 1, max_code = clear_code + 1,
                                sink = f, stat = st\<rparr>)
                   else
                     Some \<lparr>codetree = codetree', curr_code = uint next_value,
                           code_size = code_size', max_code = max_code',
                           sink = f, stat = st\<rparr>)))"

text \<open>\<open>Palette::write\<close>: the local colour table.\<close>

definition Palette_write :: "Palette \<Rightarrow> out_file \<Rightarrow> out_file option" where
  "Palette_write pal f =
     (let f = fputc 0 f; f = fputc 0 f; f = fputc 0 f
      in for_each [1..<2 ^ bit_depth pal]
           (\<lambda>i f. do {
              pr \<leftarrow> array_at (r pal) (int i);
              pg \<leftarrow> array_at (g pal) (int i);
              pb \<leftarrow> array_at (b pal) (int i);
              Some (fputc (uint pb) (fputc (uint pg) (fputc (uint pr) f)))
            }) f)"

text \<open>
  \<open>write_lzw_image\<close> (without \<open>GIF_FLIP_VERT\<close>). \<open>img\<close> is the pointer \<open>image\<close> into
  the memory; \<open>uninit_chunk\<close> is the indeterminate initial contents of the chunk array of
  the \<open>BitStatus\<close> local.
\<close>

definition lzw_header :: "nat \<Rightarrow> nat \<Rightarrow> nat \<Rightarrow> nat \<Rightarrow> nat \<Rightarrow> Palette \<Rightarrow> out_file \<Rightarrow> out_file" where
  "lzw_header left top0 width height delay pal f =
     (let f = fputc 0x21 f;
          f = fputc 0xf9 f;
          f = fputc 0x04 f;
          f = fputc 0x05 f;
          f = fputc (int (delay mod 256)) f;
          f = fputc (int ((delay div 256) mod 256)) f;
          f = fputc transparency_index f;
          f = fputc 0 f;
          f = fputc 0x2c f;
          f = fputc (int (left mod 256)) f;
          f = fputc (int ((left div 256) mod 256)) f;
          f = fputc (int (top0 mod 256)) f;
          f = fputc (int ((top0 div 256) mod 256)) f;
          f = fputc (int (width mod 256)) f;
          f = fputc (int ((width div 256) mod 256)) f;
          f = fputc (int (height mod 256)) f;
          f = fputc (int ((height div 256) mod 256)) f
      in fputc (0x80 + int (bit_depth pal) - 1) f)"

definition lzw_footer :: "nat \<Rightarrow> lzw_state \<Rightarrow> out_file option" where
  "lzw_footer min_code_size s =
     (let clear_code = (2 :: nat) ^ min_code_size
      in do {
        fs \<leftarrow> write_code (sink s, stat s) (word_of_int (curr_code s)) (code_size s);
        fs \<leftarrow> write_code fs (of_nat clear_code) (code_size s);
        fs \<leftarrow> write_code fs (of_nat clear_code + 1) (min_code_size + 1);
        st \<leftarrow> pad_to_byte (snd fs);
        let fs = (if chunk_index st \<noteq> 0 then write_chunk (fst fs, st) else (fst fs, st));
        Some (fputc 0 (fst fs))
      })"

definition write_lzw_image ::
  "u8 list \<Rightarrow> out_file \<Rightarrow> memory \<Rightarrow> nat \<Rightarrow> nat \<Rightarrow> nat \<Rightarrow> nat \<Rightarrow> nat \<Rightarrow> nat \<Rightarrow> Palette \<Rightarrow> out_file option"
where
  "write_lzw_image uninit_chunk f m img left top0 width height delay pal =
     (let f = lzw_header left top0 width height delay pal f
      in do {
        f \<leftarrow> Palette_write pal f;
        let min_code_size = bit_depth pal;
        let clear_code = (2 :: nat) ^ bit_depth pal;
        let f = fputc (int min_code_size) f;
        let code_size = min_code_size + 1;
        let stat = \<lparr>bit_index = 0, byte = 0, chunk_index = 0, chunk = uninit_chunk\<rparr>;
        fs \<leftarrow> write_code (f, stat) (of_nat clear_code) code_size;
        let s = \<lparr>codetree = (\<lambda>_ _. 0), curr_code = - 1, code_size = code_size,
                  max_code = clear_code + 1, sink = fst fs, stat = snd fs\<rparr>;
        s \<leftarrow> for_each [0..<height] (\<lambda>y s.
               for_each [0..<width] (\<lambda>x s.
                 lzw_pixel min_code_size (mem_read m img ((y * width + x) * 4 + 3)) s) s) s;
        lzw_footer min_code_size s
      })"

subsection \<open>Palette builder\<close>

text \<open>
  The palette builder works on a private copy of the frame and addresses it through
  pointers into the middle of it (\<open>image + sub_pixels_a * 4\<close>): \<open>img\<close> is the whole
  buffer and \<open>base\<close> the pixel offset of the pointer. Every access is checked against
  the buffer: an access outside it has no defined result (\<open>None\<close>). \<open>usize\<close> values
  are \<open>nat\<close>; where an unsigned difference of the source would wrap, the model has no
  result either.
\<close>

definition buf_at :: "'a list \<Rightarrow> nat \<Rightarrow> 'a option" where
  "buf_at xs k = (if k < length xs then Some (xs ! k) else None)"

definition buf_set :: "'a list \<Rightarrow> nat \<Rightarrow> 'a \<Rightarrow> 'a list option" where
  "buf_set xs k v = (if k < length xs then Some (xs[k := v]) else None)"

definition RED :: nat where [simp]: "RED = 0"
definition GREEN :: nat where [simp]: "GREEN = 1"
definition BLUE :: nat where [simp]: "BLUE = 2"
definition ALPHA :: nat where [simp]: "ALPHA = 3"

definition pixidx :: "nat \<Rightarrow> nat \<Rightarrow> nat" where
  "pixidx i color = i * 4 + color"

definition pixat :: "u8 list \<Rightarrow> nat \<Rightarrow> nat \<Rightarrow> nat \<Rightarrow> u8 option" where
  "pixat img base i color = buf_at img (pixidx (base + i) color)"

definition find_darkest_color :: "u8 list \<Rightarrow> nat \<Rightarrow> nat \<Rightarrow> (nat \<times> nat \<times> nat) option" where
  "find_darkest_color img base num_pixels =
     for_each [0..<num_pixels]
       (\<lambda>i (cr, cg, cb). do {
          pr \<leftarrow> pixat img base i RED;
          pg \<leftarrow> pixat img base i GREEN;
          pb \<leftarrow> pixat img base i BLUE;
          Some (min cr (unat pr), min cg (unat pg), min cb (unat pb))
        }) (255, 255, 255)"

definition find_lightest_color :: "u8 list \<Rightarrow> nat \<Rightarrow> nat \<Rightarrow> (nat \<times> nat \<times> nat) option" where
  "find_lightest_color img base num_pixels =
     for_each [0..<num_pixels]
       (\<lambda>i (cr, cg, cb). do {
          pr \<leftarrow> pixat img base i RED;
          pg \<leftarrow> pixat img base i GREEN;
          pb \<leftarrow> pixat img base i BLUE;
          Some (max cr (unat pr), max cg (unat pg), max cb (unat pb))
        }) (0, 0, 0)"

definition find_subcube_average :: "u8 list \<Rightarrow> nat \<Rightarrow> nat \<Rightarrow> (nat \<times> nat \<times> nat) option" where
  "find_subcube_average img base num_pixels = do {
     (cr, cg, cb) \<leftarrow> for_each [0..<num_pixels]
       (\<lambda>i (cr, cg, cb). do {
          pr \<leftarrow> pixat img base i RED;
          pg \<leftarrow> pixat img base i GREEN;
          pb \<leftarrow> pixat img base i BLUE;
          Some (cr + unat pr, cg + unat pg, cb + unat pb)
        }) (0, 0, 0);
     let cr = cr + num_pixels div 2;
     let cg = cg + num_pixels div 2;
     let cb = cb + num_pixels div 2;
     if num_pixels = 0 then None
     else Some (cr div num_pixels, cg div num_pixels, cb div num_pixels)
   }"

definition find_largest_range :: "u8 list \<Rightarrow> nat \<Rightarrow> nat \<Rightarrow> (int \<times> int \<times> int) option" where
  "find_largest_range img base num_pixels = do {
     (min_r, max_r, min_g, max_g, min_b, max_b) \<leftarrow> for_each [0..<num_pixels]
       (\<lambda>i (min_r, max_r, min_g, max_g, min_b, max_b). do {
          pr \<leftarrow> pixat img base i RED;
          pg \<leftarrow> pixat img base i GREEN;
          pb \<leftarrow> pixat img base i BLUE;
          let max_r = (if uint pr > max_r then uint pr else max_r);
          let min_r = (if uint pr < min_r then uint pr else min_r);
          let max_g = (if uint pg > max_g then uint pg else max_g);
          let min_g = (if uint pg < min_g then uint pg else min_g);
          let max_b = (if uint pb > max_b then uint pb else max_b);
          let min_b = (if uint pb < min_b then uint pb else min_b);
          Some (min_r, max_r, min_g, max_g, min_b, max_b)
        }) (255, 0, 255, 0, 255, 0);
     Some (max_r - min_r, max_g - min_g, max_b - min_b)
   }"

definition swap_pixels :: "u8 list \<Rightarrow> nat \<Rightarrow> nat \<Rightarrow> nat \<Rightarrow> u8 list option" where
  "swap_pixels img base pa pb = do {
     ra \<leftarrow> pixat img base pa RED;
     ga \<leftarrow> pixat img base pa GREEN;
     ba \<leftarrow> pixat img base pa BLUE;
     aa \<leftarrow> pixat img base pa ALPHA;
     rb \<leftarrow> pixat img base pb RED;
     gb \<leftarrow> pixat img base pb GREEN;
     bb \<leftarrow> pixat img base pb BLUE;
     ab \<leftarrow> pixat img base pb ALPHA;
     img \<leftarrow> buf_set img (pixidx (base + pa) RED) rb;
     img \<leftarrow> buf_set img (pixidx (base + pa) GREEN) gb;
     img \<leftarrow> buf_set img (pixidx (base + pa) BLUE) bb;
     img \<leftarrow> buf_set img (pixidx (base + pa) ALPHA) ab;
     img \<leftarrow> buf_set img (pixidx (base + pb) RED) ra;
     img \<leftarrow> buf_set img (pixidx (base + pb) GREEN) ga;
     img \<leftarrow> buf_set img (pixidx (base + pb) BLUE) ba;
     buf_set img (pixidx (base + pb) ALPHA) aa
   }"

text \<open>
  \<open>partition\<close> is called by \<open>partition_by_median\<close> only, with \<open>left < right - 1\<close>, so
  its \<open>right - 1\<close> does not wrap. The loop state is the buffer, \<open>store_index\<close> and the
  \<open>split\<close> toggle.
\<close>

definition partition_step ::
  "nat \<Rightarrow> nat \<Rightarrow> u8 \<Rightarrow> nat \<Rightarrow> u8 list \<times> nat \<times> bool \<Rightarrow> (u8 list \<times> nat \<times> bool) option" where
  "partition_step base elt pivot_value i st =
     (let (img, store_index, split) = st in do {
        val \<leftarrow> buf_at img ((base + i) * 4 + elt);
        if val < pivot_value then do {
          img \<leftarrow> swap_pixels img base i store_index;
          Some (img, store_index + 1, split)
        } else if val = pivot_value then
          (if split then do {
             img \<leftarrow> swap_pixels img base i store_index;
             Some (img, store_index + 1, \<not> split)
           } else Some (img, store_index, \<not> split))
        else Some (img, store_index, split)
      })"

definition partition_pixels ::
  "u8 list \<Rightarrow> nat \<Rightarrow> nat \<Rightarrow> nat \<Rightarrow> nat \<Rightarrow> nat \<Rightarrow> (u8 list \<times> nat) option" where
  "partition_pixels img base left right elt pivot_index = do {
     pivot_value \<leftarrow> buf_at img ((base + pivot_index) * 4 + elt);
     img \<leftarrow> swap_pixels img base pivot_index (right - 1);
     (img, store_index, split) \<leftarrow>
        for_each [left..<right - 1] (partition_step base elt pivot_value) (img, left, False);
     img \<leftarrow> swap_pixels img base store_index (right - 1);
     Some (img, store_index)
   }"

text \<open>
  \<open>partition_by_median\<close>. With \<open>right = 0\<close> the source's \<open>right - 1\<close> wraps and the
  scan leaves the buffer.
\<close>

partial_function (option) partition_by_median ::
  "u8 list \<Rightarrow> nat \<Rightarrow> nat \<Rightarrow> nat \<Rightarrow> nat \<Rightarrow> nat \<Rightarrow> u8 list option"
where
  "partition_by_median img base left right com needed_center =
     (if right = 0 then None
      else if left < right - 1 then do {
        let pivot_index = left + (right - left) div 2;
        (img, pivot_index) \<leftarrow> partition_pixels img base left right com pivot_index;
        img \<leftarrow> (if pivot_index > needed_center
                then partition_by_median img base left pivot_index com needed_center
                else Some img);
        if pivot_index < needed_center
        then partition_by_median img base (pivot_index + 1) right com needed_center
        else Some img
      } else Some img)"

definition set_color :: "Palette \<Rightarrow> nat \<Rightarrow> nat \<times> nat \<times> nat \<Rightarrow> Palette option" where
  "set_color p elt c =
     (let (cr, cg, cb) = c in do {
        rs \<leftarrow> buf_set (r p) elt (of_nat cr);
        gs \<leftarrow> buf_set (g p) elt (of_nat cg);
        bs \<leftarrow> buf_set (b p) elt (of_nat cb);
        Some (p\<lparr>r := rs, g := gs, b := bs\<rparr>)
      })"

text \<open>
  \<open>Palette::split\<close>. It returns the palette and the reordered buffer. The differences
  \<open>split_elt - first_elt\<close>, \<open>split_elt - split_dist\<close> and \<open>num_pixels - sub_pixels_a\<close>
  are unsigned in the source; the arguments on which one of them would wrap are outside
  the model.
\<close>

partial_function (option) Palette_split ::
  "Palette \<Rightarrow> u8 list \<Rightarrow> nat \<Rightarrow> nat \<Rightarrow> nat \<Rightarrow> nat \<Rightarrow> nat \<Rightarrow> nat \<Rightarrow> nat \<Rightarrow> bool
     \<Rightarrow> (Palette \<times> u8 list) option"
where
  "Palette_split p img base num_pixels first_elt last_elt split_elt split_dist tree_node
       build_for_dither =
     (if last_elt \<le> first_elt \<or> num_pixels = 0 then Some (p, img)
      else if last_elt = first_elt + 1 then
        (if build_for_dither \<and> first_elt = 1 then do {
           c \<leftarrow> find_darkest_color img base num_pixels;
           p \<leftarrow> set_color p first_elt c;
           Some (p, img)
         } else if build_for_dither \<and> first_elt = 2 ^ bit_depth p - 1 then do {
           c \<leftarrow> find_lightest_color img base num_pixels;
           p \<leftarrow> set_color p first_elt c;
           Some (p, img)
         } else do {
           c \<leftarrow> find_subcube_average img base num_pixels;
           p \<leftarrow> set_color p first_elt c;
           Some (p, img)
         })
      else if split_elt < first_elt \<or> last_elt < split_elt \<or> split_elt < split_dist then None
      else do {
        (r_range, g_range, b_range) \<leftarrow> find_largest_range img base num_pixels;
        let split_com = (1 :: nat);
        let split_com = (if b_range > g_range then 2 else split_com);
        let split_com = (if r_range > b_range \<and> r_range > g_range then 0 else split_com);
        let sub_pixels_a = num_pixels * (split_elt - first_elt) div (last_elt - first_elt);
        let sub_pixels_b = num_pixels - sub_pixels_a;
        img \<leftarrow> partition_by_median img base 0 num_pixels split_com sub_pixels_a;
        elts \<leftarrow> buf_set (tree_split_elt p) tree_node (of_nat split_com);
        v \<leftarrow> buf_at img ((base + sub_pixels_a) * 4 + split_com);
        splits \<leftarrow> buf_set (tree_split p) tree_node v;
        let p = p\<lparr>tree_split_elt := elts, tree_split := splits\<rparr>;
        (p, img) \<leftarrow> Palette_split p img base sub_pixels_a first_elt split_elt
                      (split_elt - split_dist) (split_dist div 2) (tree_node * 2) build_for_dither;
        Palette_split p img (base + sub_pixels_a) sub_pixels_b split_elt last_elt
          (split_elt + split_dist) (split_dist div 2) (tree_node * 2 + 1) build_for_dither
      })"

text \<open>
  \<open>pick_changed_pixels\<close>: \<open>frame\<close> is the private copy, \<open>last_frame\<close> a buffer of the
  memory; the write cursor \<open>wit\<close> is \<open>num_changed\<close> pixels into the copy.
\<close>

definition pick_changed_pixels ::
  "u8 list \<Rightarrow> u8 list \<Rightarrow> nat \<Rightarrow> (u8 list \<times> nat) option" where
  "pick_changed_pixels last_frame frame num_pixels =
     for_each [0..<num_pixels]
       (\<lambda>i (frame, num_changed). do {
          l0 \<leftarrow> buf_at last_frame (4 * i);
          f0 \<leftarrow> buf_at frame (4 * i);
          l1 \<leftarrow> buf_at last_frame (4 * i + 1);
          f1 \<leftarrow> buf_at frame (4 * i + 1);
          l2 \<leftarrow> buf_at last_frame (4 * i + 2);
          f2 \<leftarrow> buf_at frame (4 * i + 2);
          if l0 \<noteq> f0 \<or> l1 \<noteq> f1 \<or> l2 \<noteq> f2 then do {
            frame \<leftarrow> buf_set frame (4 * num_changed) f0;
            f1 \<leftarrow> buf_at frame (4 * i + 1);
            frame \<leftarrow> buf_set frame (4 * num_changed + 1) f1;
            f2 \<leftarrow> buf_at frame (4 * i + 2);
            frame \<leftarrow> buf_set frame (4 * num_changed + 2) f2;
            Some (frame, num_changed + 1)
          } else Some (frame, num_changed)
        }) (frame, 0)"

definition copy_image :: "u8 list \<Rightarrow> nat \<Rightarrow> u8 list option" where
  "copy_image src image_size =
     (if image_size \<le> length src then Some (take image_size src) else None)"

text \<open>
  The constructor \<open>Palette::Palette\<close>. \<open>uninit\<close> gives the indeterminate contents of the
  five arrays when the constructor starts (it initialises \<open>bit_depth\<close> only). A
  \<open>bit_depth\<close> of 0 makes the shift \<open>1 << (bit_depth - 1)\<close> undefined.
\<close>

definition Palette_new ::
  "Palette \<Rightarrow> memory \<Rightarrow> nat option \<Rightarrow> nat \<Rightarrow> nat \<Rightarrow> nat \<Rightarrow> nat \<Rightarrow> bool \<Rightarrow> Palette option" where
  "Palette_new uninit m last_frame next_frame width height depth build_for_dither =
     (let p = uninit\<lparr>bit_depth := depth\<rparr>;
          image_size = width * height * 4
      in do {
        destroyable_image \<leftarrow> copy_image (m next_frame) image_size;
        let num_pixels = width * height;
        (destroyable_image, num_pixels) \<leftarrow>
          (case last_frame of
             None \<Rightarrow> Some (destroyable_image, num_pixels)
           | Some l \<Rightarrow> pick_changed_pixels (m l) destroyable_image num_pixels);
        let last_elt = (2 :: nat) ^ depth;
        let split_elt = last_elt div 2;
        let split_dist = split_elt div 2;
        (p, destroyable_image) \<leftarrow>
          Palette_split p destroyable_image 0 num_pixels 1 last_elt split_elt split_dist 1
            build_for_dither;
        if depth = 0 then None
        else do {
          splits \<leftarrow> buf_set (tree_split p) (2 ^ (depth - 1)) 0;
          elts \<leftarrow> buf_set (tree_split_elt p) (2 ^ (depth - 1)) 0;
          bs \<leftarrow> buf_set (b p) 0 0;
          gs \<leftarrow> buf_set (g p) 0 0;
          rs \<leftarrow> buf_set (r p) 0 0;
          Some (p\<lparr>tree_split := splits, tree_split_elt := elts, b := bs, g := gs, r := rs\<rparr>)
        }
      })"

subsection \<open>Floyd-Steinberg quantizer\<close>

text \<open>
  The working buffer \<open>quant_pixels\<close> holds \<open>i32\<close> values. They are modelled as
  \<open>int\<close>, and every arithmetic result is checked against the \<open>i32\<close> range: signed
  overflow has no defined result in C++ and is \<open>None\<close>. Division truncates towards
  zero (\<open>sdiv\<close>).
\<close>

definition i32 :: "int \<Rightarrow> int option" where
  "i32 v = (if - (2 ^ 31) \<le> v \<and> v < 2 ^ 31 then Some v else None)"

definition quantloc_7 :: "nat \<Rightarrow> nat \<Rightarrow> nat \<Rightarrow> nat" where
  "quantloc_7 width x y = y * width + x + 1"

definition quantloc_3 :: "nat \<Rightarrow> nat \<Rightarrow> nat \<Rightarrow> nat" where
  "quantloc_3 width x y = y * width + width + x - 1"

definition quantloc_5 :: "nat \<Rightarrow> nat \<Rightarrow> nat \<Rightarrow> nat" where
  "quantloc_5 width x y = y * width + width + x"

definition quantloc_1 :: "nat \<Rightarrow> nat \<Rightarrow> nat \<Rightarrow> nat" where
  "quantloc_1 width x y = y * width + width + x + 1"

text \<open>
  One statement \<open>pix[c] += max(-pix[c], share)\<close>, where \<open>share\<close> is
  \<open>err * 7 / 16\<close>, \<open>err * 3 / 16\<close>, \<open>err * 5 / 16\<close> or \<open>err / 16\<close>.
\<close>

definition err_share :: "int \<Rightarrow> int \<Rightarrow> int option" where
  "err_share err weight =
     (if weight = 1 then Some (err sdiv 16)
      else do { e \<leftarrow> i32 (err * weight); Some (e sdiv 16) })"

definition add_clamped :: "int list \<Rightarrow> nat \<Rightarrow> int \<Rightarrow> int \<Rightarrow> int list option" where
  "add_clamped q k err weight = do {
     neg \<leftarrow> i32 (- (q ! k));
     share \<leftarrow> err_share err weight;
     v \<leftarrow> i32 (q ! k + max neg share);
     Some (q[k := v])
   }"

text \<open>One block \<open>if (quantloc < num_pixels) { ... }\<close> of the error propagation.\<close>

definition propagate ::
  "int list \<Rightarrow> nat \<Rightarrow> nat \<Rightarrow> int \<times> int \<times> int \<Rightarrow> int \<Rightarrow> int list option" where
  "propagate q num_pixels quantloc errs weight =
     (let (r_err, g_err, b_err) = errs
      in if quantloc < num_pixels then do {
           q \<leftarrow> add_clamped q (4 * quantloc) r_err weight;
           q \<leftarrow> add_clamped q (4 * quantloc + 1) g_err weight;
           add_clamped q (4 * quantloc + 2) b_err weight
         } else Some q)"

text \<open>The body of the inner loop of \<open>dither_image\<close>, for the pixel in column \<open>x\<close> of row \<open>y\<close>.\<close>

definition dither_pixel ::
  "Palette \<Rightarrow> memory \<Rightarrow> nat option \<Rightarrow> nat \<Rightarrow> nat \<Rightarrow> nat \<Rightarrow> nat \<Rightarrow> int list \<Rightarrow> int list option"
where
  "dither_pixel pal m last_frame width num_pixels y x q =
     (let next_pix = 4 * (y * width + x) in do {
        sum_r \<leftarrow> i32 (q ! next_pix + 127);
        let rr = sum_r sdiv 256;
        sum_g \<leftarrow> i32 (q ! (next_pix + 1) + 127);
        let gg = sum_g sdiv 256;
        sum_b \<leftarrow> i32 (q ! (next_pix + 2) + 127);
        let bb = sum_b sdiv 256;
        if (case last_frame of
              None \<Rightarrow> False
            | Some l \<Rightarrow> uint (mem_read m l next_pix) = rr \<and>
                        uint (mem_read m l (next_pix + 1)) = gg \<and>
                        uint (mem_read m l (next_pix + 2)) = bb)
        then Some (q[next_pix := rr, next_pix + 1 := gg, next_pix + 2 := bb,
                     next_pix + 3 := transparency_index])
        else do {
          (best_ind, best_diff) \<leftarrow>
             get_closest_pallete_color pal rr gg bb (transparency_index, 1000000) 1;
          pr \<leftarrow> array_at (r pal) best_ind;
          r_err \<leftarrow> i32 (q ! next_pix - uint pr * 256);
          pg \<leftarrow> array_at (g pal) best_ind;
          g_err \<leftarrow> i32 (q ! (next_pix + 1) - uint pg * 256);
          pb \<leftarrow> array_at (b pal) best_ind;
          b_err \<leftarrow> i32 (q ! (next_pix + 2) - uint pb * 256);
          let q = q[next_pix := uint pr, next_pix + 1 := uint pg, next_pix + 2 := uint pb,
                    next_pix + 3 := best_ind];
          q \<leftarrow> propagate q num_pixels (quantloc_7 width x y) (r_err, g_err, b_err) 7;
          q \<leftarrow> propagate q num_pixels (quantloc_3 width x y) (r_err, g_err, b_err) 3;
          q \<leftarrow> propagate q num_pixels (quantloc_5 width x y) (r_err, g_err, b_err) 5;
          propagate q num_pixels (quantloc_1 width x y) (r_err, g_err, b_err) 1
        }
      })"

text \<open>The two nested loops over the rows and the columns.\<close>

definition dither_pass ::
  "Palette \<Rightarrow> memory \<Rightarrow> nat option \<Rightarrow> nat \<Rightarrow> nat \<Rightarrow> int list \<Rightarrow> int list option" where
  "dither_pass pal m last_frame width height q =
     for_each [0..<height] (\<lambda>y q.
       for_each [0..<width] (\<lambda>x q.
         dither_pixel pal m last_frame width (width * height) y x q) q) q"

definition dither_image ::
  "memory \<Rightarrow> nat option \<Rightarrow> nat \<Rightarrow> nat \<Rightarrow> nat \<Rightarrow> nat \<Rightarrow> Palette \<Rightarrow> memory option" where
  "dither_image m last_frame next_frame out_frame width height pal =
     (let num_pixels = width * height in do {
        src \<leftarrow> copy_image (m next_frame) (num_pixels * 4);
        let quant_pixels = map (\<lambda>v. uint v * 256) src;
        quant_pixels \<leftarrow> dither_pass pal m last_frame width height quant_pixels;
        Some (fold (\<lambda>i m. mem_write m out_frame i (word_of_int (quant_pixels ! i)))
                [0..<num_pixels * 4] m)
      })"

subsection \<open>Writer\<close>

text \<open>
  The sink is the file behind the \<open>FILE *\<close>: its bytes and the number of \<open>fclose\<close>
  calls on it. The \<open>Writer\<close> holds the two owning pointers: \<open>f_handle\<close> tells whether its
  member \<open>f\<close> is non-null,
  \<open>old_image\<close> names the previous-frame buffer in the memory. Releasing a non-null
  \<open>f\<close> runs the deleter installed by \<open>Writer::open\<close>.
\<close>

record sink_state =
  contents :: out_file
  closed :: nat

record Writer =
  f_handle :: bool
  old_image :: "nat option"
  first_frame :: bool

definition default_writer :: Writer where
  "default_writer = \<lparr>f_handle = False, old_image = None, first_frame = True\<rparr>"

definition file_deleter :: "sink_state \<Rightarrow> sink_state" where
  "file_deleter s = \<lparr>contents = fputc 0x3b (contents s), closed = closed s + 1\<rparr>"

text \<open>
  \<open>Writer::open\<close>: \<open>fopen_ok\<close> tells whether \<open>fopen\<close> succeeds, \<open>addr\<close> is the address
  of the buffer that \<open>make_unique\<close> allocates (zero-filled). The result \<open>None\<close> is
  \<open>std::nullopt\<close>.
\<close>

definition Writer_open ::
  "bool \<Rightarrow> nat \<Rightarrow> memory \<Rightarrow> nat \<Rightarrow> nat \<Rightarrow> nat \<Rightarrow> nat \<Rightarrow> bool
     \<Rightarrow> (Writer \<times> memory \<times> sink_state) option" where
  "Writer_open fopen_ok addr m width height delay depth dither =
     (if \<not> fopen_ok then None
      else
        (let m = m(addr := replicate (width * height * 4) 0);
             w = \<lparr>f_handle = True, old_image = Some addr, first_frame = True\<rparr>;
             out = fputs ''GIF89a'' [];
             out = fputc (int (width mod 256)) out;
             out = fputc (int ((width div 256) mod 256)) out;
             out = fputc (int (height mod 256)) out;
             out = fputc (int ((height div 256) mod 256)) out;
             out = fputc 0xf0 out;
             out = fputc 0 out;
             out = fputc 0 out;
             out = fputc 0 out;
             out = fputc 0 out;
             out = fputc 0 out;
             out = fputc 0 out;
             out = fputc 0 out;
             out = fputc 0 out;
             out = (if delay \<noteq> 0 then
                      (let out = fputc 0x21 out;
                           out = fputc 0xff out;
                           out = fputc 11 out;
                           out = fputs ''NETSCAPE2.0'' out;
                           out = fputc 3 out;
                           out = fputc 1 out;
                           out = fputc 0 out;
                           out = fputc 0 out
                       in fputc 0 out)
                    else out)
         in Some (w, m, \<lparr>contents = out, closed = 0\<rparr>)))"

text \<open>
  \<open>Writer::write_frame\<close>: the result is the returned \<open>bool\<close> with the new writer, memory
  and sink. \<open>uninit_palette\<close> and \<open>uninit_chunk\<close> are the indeterminate initial contents
  of the local \<open>Palette\<close> and of the chunk array of the local \<open>BitStatus\<close>.
\<close>

definition Writer_write_frame ::
  "Palette \<Rightarrow> u8 list \<Rightarrow> Writer \<times> memory \<times> sink_state \<Rightarrow> nat \<Rightarrow> nat \<Rightarrow> nat \<Rightarrow> nat \<Rightarrow> nat \<Rightarrow> bool
     \<Rightarrow> (bool \<times> Writer \<times> memory \<times> sink_state) option" where
  "Writer_write_frame uninit_palette uninit_chunk st img width height delay depth dither =
     (let (w, m, s) = st
      in if \<not> f_handle w then Some (False, w, m, s)
         else
           (let old = (if first_frame w then None else old_image w);
                w = w\<lparr>first_frame := False\<rparr>
            in do {
              pal \<leftarrow> Palette_new uninit_palette m (if dither then None else old) img
                       width height depth dither;
              out_frame \<leftarrow> old_image w;
              m \<leftarrow> (if dither then dither_image m old img out_frame width height pal
                    else threshold_image m old img out_frame width height pal);
              out \<leftarrow> write_lzw_image uninit_chunk (contents s) m out_frame 0 0 width height
                       delay pal;
              Some (True, w, m, s\<lparr>contents := out\<rparr>)
            }))"

definition Writer_close ::
  "Writer \<times> memory \<times> sink_state \<Rightarrow> bool \<times> Writer \<times> memory \<times> sink_state" where
  "Writer_close st =
     (let (w, m, s) = st
      in if \<not> f_handle w then (False, w, m, s)
         else (True, w\<lparr>f_handle := False, old_image := None\<rparr>, m, file_deleter s))"

text \<open>The destructor of a \<open>Writer\<close>: a non-null \<open>f\<close> is released through the deleter.\<close>

definition Writer_drop :: "Writer \<times> memory \<times> sink_state \<Rightarrow> sink_state" where
  "Writer_drop st = (let (w, m, s) = st in if f_handle w then file_deleter s else s)"

text \<open>
  What a caller does with a writer between \<open>Writer::open\<close> and the end of the writer's
  lifetime: any sequence of \<open>write_frame\<close> and \<open>close\<close> calls, whose results it may
  ignore, and then the destructor.
\<close>

datatype writer_op =
  Write_frame Palette "u8 list" nat nat nat nat nat bool
  | Close

fun is_Close :: "writer_op \<Rightarrow> bool" where
  "is_Close Close = True"
| "is_Close (Write_frame _ _ _ _ _ _ _ _) = False"

fun run_ops ::
  "writer_op list \<Rightarrow> Writer \<times> memory \<times> sink_state \<Rightarrow> (Writer \<times> memory \<times> sink_state) option" where
  "run_ops [] st = Some st"
| "run_ops (Write_frame uninit_palette uninit_chunk img width height delay depth dither # ops) st =
     (case Writer_write_frame uninit_palette uninit_chunk st img width height delay depth dither of
        None \<Rightarrow> None
      | Some (ok, st') \<Rightarrow> run_ops ops st')"
| "run_ops (Close # ops) st = run_ops ops (snd (Writer_close st))"

definition writer_lifetime ::
  "writer_op list \<Rightarrow> Writer \<times> memory \<times> sink_state \<Rightarrow> sink_state option" where
  "writer_lifetime ops st = map_option Writer_drop (run_ops ops st)"

subsection \<open>Properties of palettes and of the nearest-colour query\<close>

text \<open>
  A query result \<open>res\<close> improves on \<open>best\<close> when its difference is no larger and it
  either is \<open>best\<close> or names a palette colour other than the transparent one with a
  strictly smaller difference. A palette has valid axes when every entry of its split-axis
  array is 0, 1 or 2; the palette builder keeps the array sizes, the bit depth and the
  validity of the axes.
\<close>

definition improves :: "Palette \<Rightarrow> int \<times> int \<Rightarrow> int \<times> int \<Rightarrow> bool" where
  "improves p best res \<longleftrightarrow>
     snd res \<le> snd best \<and>
     (res = best \<or> (1 \<le> fst res \<and> fst res < 2 ^ bit_depth p \<and> snd res < snd best))"

definition axes_ok :: "Palette \<Rightarrow> bool" where
  "axes_ok p \<longleftrightarrow> (\<forall>n < length (tree_split_elt p). tree_split_elt p ! n < 3)"

definition shape_kept :: "Palette \<Rightarrow> Palette \<Rightarrow> bool" where
  "shape_kept p p' \<longleftrightarrow>
     bit_depth p' = bit_depth p \<and>
     length (r p') = length (r p) \<and> length (g p') = length (g p) \<and>
     length (b p') = length (b p) \<and>
     length (tree_split_elt p') = length (tree_split_elt p) \<and>
     length (tree_split p') = length (tree_split p) \<and>
     (axes_ok p \<longrightarrow> axes_ok p')"

subsection \<open>Invariant of the dither buffer\<close>


subsection \<open>Invariants of the encoder loops\<close>

text \<open>
  Between two bit writes of \<open>write_code\<close> the sub-block buffer holds fewer than 255
  bytes. In the pixel loop of the LZW encoder, moreover, every dictionary entry and the
  current code stay below the dictionary size.
\<close>

definition chunk_ok :: "BitStatus \<Rightarrow> bool" where
  "chunk_ok s \<longleftrightarrow> chunk_index s < 255 \<and> length (chunk s) = 256"

definition lzw_ok :: "lzw_state \<Rightarrow> bool" where
  "lzw_ok s \<longleftrightarrow> chunk_ok (stat s) \<and> curr_code s < 4096 \<and> max_code s < 4095 \<and>
     (\<forall>c v. unat (codetree s c v) \<le> max_code s)"

subsection \<open>Example inputs\<close>

text \<open>
  A one-bit palette whose colours are all (7, 8, 9), and a memory with the input frame in
  buffer 0 and the previous-frame buffer in buffer 1 (two pixels each).
\<close>

definition example_palette :: Palette where
  "example_palette = \<lparr>bit_depth = 1, r = replicate 256 7, g = replicate 256 8, b = replicate 256 9,
     tree_split_elt = replicate 256 0, tree_split = replicate 256 0\<rparr>"

text \<open>
  A palette memory that happens to hold zeros, a memory with a one-pixel frame of colour
  (5, 6, 7) in buffer 0, and the one-bit palette that the constructor builds from them.
\<close>

definition uninit_zero :: Palette where
  "uninit_zero = \<lparr>bit_depth = 0, r = replicate 256 0, g = replicate 256 0, b = replicate 256 0,
     tree_split_elt = replicate 256 0, tree_split = replicate 256 0\<rparr>"

definition one_pixel_memory :: memory where
  "one_pixel_memory = (\<lambda>p. if p = 0 then [5, 6, 7, 255] else [0, 0, 0, 0])"

definition one_pixel_palette :: Palette where
  "one_pixel_palette = \<lparr>bit_depth = 1, r = (replicate 256 0)[1 := 5, 0 := 0],
        g = (replicate 256 0)[1 := 6, 0 := 0],
        b = (replicate 256 0)[1 := 7, 0 := 0],
        tree_split_elt = (replicate 256 0)[1 := 0],
        tree_split = (replicate 256 0)[1 := 0]\<rparr>"


definition example_stat :: BitStatus where
  "example_stat = \<lparr>bit_index = 0, byte = 0, chunk_index = 0, chunk = replicate 256 0\<rparr>"

definition example_lzw_state :: lzw_state where
  "example_lzw_state = \<lparr>codetree = (\<lambda>_ _. 0), curr_code = 1, code_size = 2, max_code = 3,
     sink = [], stat = example_stat\<rparr>"

definition example_writer :: Writer where
  "example_writer = \<lparr>f_handle = True, old_image = Some 1, first_frame = True\<rparr>"

definition example_sink :: sink_state where
  "example_sink = \<lparr>contents = [71, 73, 70], closed = 0\<rparr>"

definition example_memory :: memory where
  "example_memory = (\<lambda>p. if p = 0 then [1, 2, 3, 255, 4, 5, 6, 255] else [1, 2, 3, 1, 0, 0, 0, 1])"

text \<open>
  A memory whose buffer 0 holds a frame of one column and two rows, (10, 0, 0, 255) above
  (0, 0, 0, 255), and the palette that the constructor builds from it for dithering at bit
  depth 1.
\<close>

definition two_pixel_memory :: memory where
  "two_pixel_memory = (\<lambda>p. if p = 0 then [10, 0, 0, 255, 0, 0, 0, 255] else [0, 0, 0, 0, 0, 0, 0, 0])"

text \<open>A palette memory that happens to hold the byte 85 in every colour entry.\<close>

definition uninit_grey :: Palette where
  "uninit_grey = \<lparr>bit_depth = 0, r = replicate 256 85, g = replicate 256 85, b = replicate 256 85,
     tree_split_elt = replicate 256 0, tree_split = replicate 256 0\<rparr>"

definition darkest_palette :: Palette where
  "darkest_palette = \<lparr>bit_depth = 1, r = (replicate 256 0)[1 := 0, 0 := 0],
        g = (replicate 256 0)[1 := 0, 0 := 0],
        b = (replicate 256 0)[1 := 0, 0 := 0],
        tree_split_elt = (replicate 256 0)[1 := 0],
        tree_split = (replicate 256 0)[1 := 0]\<rparr>"

text \<open>
  The palette that the constructor builds at bit depth 2 from the one-pixel frame, over a
  palette memory whose colour entries all held \<open>v\<close>: entries 1 and 2 keep \<open>v\<close>.
\<close>

definition sparse_palette :: "u8 \<Rightarrow> Palette" where
  "sparse_palette v = \<lparr>bit_depth = 2, r = (replicate 256 v)[3 := 5, 0 := 0],
        g = (replicate 256 v)[3 := 6, 0 := 0],
        b = (replicate 256 v)[3 := 7, 0 := 0],
        tree_split_elt = (replicate 256 0)[1 := 1, 3 := 1, 2 := 0],
        tree_split = (replicate 256 0)[1 := 6, 3 := 6, 2 := 0]\<rparr>"

text \<open>An open file to which nothing has been written.\<close>

definition fresh_sink :: sink_state where
  "fresh_sink = \<lparr>contents = [], closed = 0\<rparr>"


section \<open>The threshold quantizer\<close>












lemmas threshold_eval = threshold_image_def threshold_pixel_def palettize_pixel_def
  get_closest_pallete_color.simps array_at_def transparency_index_def mem_read_def mem_write_def


section \<open>The bit stream and the LZW encoder\<close>


lemma for_each_invariant:
  assumes "\<And>i s. i \<in> set xs \<Longrightarrow> I s \<Longrightarrow> \<exists>s'. body i s = Some s' \<and> I s'" and "I s"
  shows "\<exists>s'. for_each xs body s = Some s' \<and> I s'"
  using assms
proof (induction xs arbitrary: s)
  case Nil
  then show ?case by simp
next
  case (Cons x xs)
  from Cons.prems(1)[of x s] Cons.prems(2)
  obtain s1 where s1: "body x s = Some s1" "I s1" by auto
  have "\<exists>s'. for_each xs body s1 = Some s' \<and> I s'"
    using Cons.prems(1) s1(2) by (intro Cons.IH) auto
  then show ?case using s1(1) by simp
qed

lemma write_bit_bound:
  assumes "chunk_ok s"
  shows "\<exists>s1. write_bit s bit_arg = Some s1 \<and> chunk_index s1 \<le> chunk_index s + 1 \<and>
           chunk_index s1 \<le> 255 \<and> length (chunk s1) = 256"
  using assms by (auto simp: write_bit_def chunk_ok_def Let_def)

lemma write_chunk_ok:
  "length (chunk s) = 256 \<Longrightarrow> chunk_ok (snd (write_chunk (f, s)))"
  by (simp add: write_chunk_def chunk_ok_def Let_def)

lemma write_code_bound:
  assumes "chunk_ok s"
  shows "\<exists>f' s'. write_code (f, s) code len = Some (f', s') \<and> chunk_ok s'"
  using assms
proof (induction len arbitrary: f s code)
  case 0
  then show ?case by simp
next
  case (Suc len)
  from write_bit_bound[OF Suc.prems, of code]
  obtain s1 where s1: "write_bit s code = Some s1" "chunk_index s1 \<le> 255" "length (chunk s1) = 256"
    by auto
  show ?case
  proof (cases "chunk_index s1 = 255")
    case True
    obtain f2 s2 where w: "write_chunk (f, s1) = (f2, s2)" by (cases "write_chunk (f, s1)")
    then have "chunk_ok s2" using write_chunk_ok[OF s1(3), of f] by simp
    from Suc.IH[OF this, of f2 "drop_bit 1 code"] show ?thesis
      using s1(1) True w by simp
  next
    case False
    then have "chunk_ok s1" using s1 by (simp add: chunk_ok_def)
    from Suc.IH[OF this, of f "drop_bit 1 code"] show ?thesis
      using s1(1) False by simp
  qed
qed

lemma pad_to_byte_bound:
  assumes "chunk_ok s"
  shows "\<exists>s'. pad_to_byte s = Some s' \<and> chunk_index s' \<le> chunk_index s + 1 \<and> bit_index s' = 0"
  using assms
proof (induction s rule: pad_to_byte.induct)
  case (1 s)
  show ?case
  proof (cases "bit_index s = 0")
    case True
    then show ?thesis by (subst pad_to_byte.simps) simp
  next
    case False
    from write_bit_bound[OF "1.prems", of 0]
    obtain s1 where s1: "write_bit s 0 = Some s1" by auto
    show ?thesis
    proof (cases "bit_index s1 = 0")
      case True
      then have "pad_to_byte s1 = Some s1" by (subst pad_to_byte.simps) simp
      moreover have "chunk_index s1 \<le> chunk_index s + 1"
        using s1 by (auto simp: write_bit_def Let_def split: if_splits)
      ultimately show ?thesis using s1 False True
        by (subst pad_to_byte.simps) simp
    next
      case nz: False
      then have same: "chunk_index s1 = chunk_index s" "chunk s1 = chunk s"
        using s1 by (auto simp: write_bit_def Let_def split: if_splits)
      then have "chunk_ok s1" using "1.prems" by (simp add: chunk_ok_def)
      from "1.IH"[OF False s1(1) this] show ?thesis
        using s1 False same by (subst pad_to_byte.simps) simp
    qed
  qed
qed


lemma lzw_pixel_first:
  "curr_code s < 0 \<Longrightarrow> lzw_pixel min_code_size next_value s = Some (s\<lparr>curr_code := uint next_value\<rparr>)"
  by (simp add: lzw_pixel_def)

lemma lzw_pixel_known:
  "0 \<le> curr_code s \<Longrightarrow> nat (curr_code s) < codetree_size \<Longrightarrow>
   codetree s (nat (curr_code s)) next_value \<noteq> 0 \<Longrightarrow>
   lzw_pixel min_code_size next_value s
     = Some (s\<lparr>curr_code := uint (codetree s (nat (curr_code s)) next_value)\<rparr>)"
  by (simp add: lzw_pixel_def)

lemma lzw_pixel_new:
  assumes "0 \<le> curr_code s" "nat (curr_code s) < codetree_size"
    "codetree s (nat (curr_code s)) next_value = 0"
    "write_code (sink s, stat s) (word_of_int (curr_code s)) (code_size s) = Some (f1, st1)"
  shows "lzw_pixel min_code_size next_value s =
    (if max_code s + 1 = 4095 then
       (case write_code (f1, st1) (of_nat (2 ^ min_code_size))
               (if max_code s + 1 \<ge> 2 ^ code_size s then code_size s + 1 else code_size s) of
          None \<Rightarrow> None
        | Some (f2, st2) \<Rightarrow>
            Some \<lparr>codetree = (\<lambda>_ _. 0), curr_code = uint next_value,
                  code_size = min_code_size + 1, max_code = 2 ^ min_code_size + 1,
                  sink = f2, stat = st2\<rparr>)
     else Some \<lparr>codetree = (codetree s)(nat (curr_code s) :=
                     (codetree s (nat (curr_code s)))(next_value := of_nat (max_code s + 1))),
                 curr_code = uint next_value,
                 code_size = (if max_code s + 1 \<ge> 2 ^ code_size s then code_size s + 1
                              else code_size s),
                 max_code = max_code s + 1, sink = f1, stat = st1\<rparr>)"
  using assms unfolding lzw_pixel_def Let_def
  by (simp del: of_nat_add of_nat_Suc of_nat_power split: prod.splits option.splits)

lemma unat_of_nat_u16: "n < 65536 \<Longrightarrow> unat (of_nat n :: 16 word) = n"
  by (simp add: unat_of_nat)

lemma lzw_pixel_ok:
  assumes "lzw_ok s" and "min_code_size \<le> 11"
  shows "\<exists>s'. lzw_pixel min_code_size next_value s = Some s' \<and> lzw_ok s'"
proof -
  have clear: "(2::nat) ^ min_code_size + 1 < 4095"
  proof -
    have "(2::nat) ^ min_code_size \<le> 2 ^ 11"
      using assms(2) by (intro power_increasing) simp_all
    then show ?thesis by simp
  qed
  have nv: "uint next_value < 4096"
    using uint_bounded[of next_value] by simp
  consider (first) "curr_code s < 0"
    | (known) "0 \<le> curr_code s" "codetree s (nat (curr_code s)) next_value \<noteq> 0"
    | (new) "0 \<le> curr_code s" "codetree s (nat (curr_code s)) next_value = 0"
    by (cases "curr_code s < 0") auto
  then show ?thesis
  proof cases
    case first
    have "lzw_ok (s\<lparr>curr_code := uint next_value\<rparr>)"
      using assms(1) nv by (simp add: lzw_ok_def)
    then show ?thesis using lzw_pixel_first[OF first] by simp
  next
    case known
    have idx: "nat (curr_code s) < codetree_size"
      using assms(1) known(1) by (auto simp: lzw_ok_def codetree_size_def)
    have "unat (codetree s (nat (curr_code s)) next_value) \<le> max_code s"
      using assms(1) by (simp add: lzw_ok_def)
    moreover have "max_code s < 4095"
      using assms(1) by (simp add: lzw_ok_def)
    ultimately have "uint (codetree s (nat (curr_code s)) next_value) < 4096"
      unfolding uint_nat by linarith
    then have "lzw_ok (s\<lparr>curr_code := uint (codetree s (nat (curr_code s)) next_value)\<rparr>)"
      using assms(1) by (simp add: lzw_ok_def)
    then show ?thesis using lzw_pixel_known[OF known(1) idx known(2)] by simp
  next
    case new
    have idx: "nat (curr_code s) < codetree_size"
      using assms(1) new(1) by (auto simp: lzw_ok_def codetree_size_def)
    from write_code_bound[of "stat s" "sink s" "word_of_int (curr_code s)" "code_size s"] assms(1)
    obtain f1 st1 where w1: "write_code (sink s, stat s) (word_of_int (curr_code s)) (code_size s)
        = Some (f1, st1)" "chunk_ok st1"
      by (auto simp: lzw_ok_def)
    note eq = lzw_pixel_new[OF new(1) idx new(2) w1(1), of min_code_size]
    show ?thesis
    proof (cases "max_code s + 1 = 4095")
      case True
      from write_code_bound[OF w1(2), of f1]
      obtain f2 st2 where w2: "write_code (f1, st1) (of_nat (2 ^ min_code_size))
          (if 2 ^ code_size s \<le> max_code s + 1 then code_size s + 1 else code_size s) = Some (f2, st2)"
          "chunk_ok st2"
        by blast
      have "lzw_ok \<lparr>codetree = (\<lambda>_ _. 0), curr_code = uint next_value,
                  code_size = min_code_size + 1, max_code = 2 ^ min_code_size + 1,
                  sink = f2, stat = st2\<rparr>"
        using w2(2) clear nv by (simp add: lzw_ok_def)
      then show ?thesis unfolding eq using True w2(1) by (simp del: of_nat_power)
    next
      case False
      then have m: "max_code s + 1 < 4095" using assms(1) by (simp add: lzw_ok_def)
      then have u: "unat (of_nat (max_code s + 1) :: 16 word) = max_code s + 1"
        by (intro unat_of_nat_u16) simp
      have "\<forall>c v. unat (codetree s c v) \<le> max_code s + 1"
        using assms(1) by (auto simp: lzw_ok_def intro: le_SucI)
      then have "lzw_ok \<lparr>codetree = (codetree s)(nat (curr_code s) :=
                     (codetree s (nat (curr_code s)))(next_value := of_nat (max_code s + 1))),
                 curr_code = uint next_value,
                 code_size = (if max_code s + 1 \<ge> 2 ^ code_size s then code_size s + 1
                              else code_size s),
                 max_code = max_code s + 1, sink = f1, stat = st1\<rparr>"
        using w1(2) m nv u by (simp add: lzw_ok_def del: of_nat_add of_nat_Suc)
      then show ?thesis unfolding eq using False by simp
    qed
  qed
qed

lemma lzw_footer_returns:
  assumes "lzw_ok s"
  shows "\<exists>f'. lzw_footer min_code_size s = Some f'"
proof -
  from assms have c0: "chunk_ok (stat s)" by (simp add: lzw_ok_def)
  from write_code_bound[OF c0, of "sink s" "word_of_int (curr_code s)" "code_size s"]
  obtain f1 s1 where w1: "write_code (sink s, stat s) (word_of_int (curr_code s)) (code_size s)
      = Some (f1, s1)" "chunk_ok s1" by blast
  from write_code_bound[OF w1(2), of f1 "of_nat (2 ^ min_code_size)" "code_size s"]
  obtain f2 s2 where w2: "write_code (f1, s1) (of_nat (2 ^ min_code_size)) (code_size s)
      = Some (f2, s2)" "chunk_ok s2" by blast
  from write_code_bound[OF w2(2), of f2 "of_nat (2 ^ min_code_size) + 1" "min_code_size + 1"]
  obtain f3 s3 where w3: "write_code (f2, s2) (of_nat (2 ^ min_code_size) + 1) (min_code_size + 1)
      = Some (f3, s3)" "chunk_ok s3" by blast
  from pad_to_byte_bound[OF w3(2)] obtain s4 where "pad_to_byte s3 = Some s4" by blast
  then show ?thesis using w1 w2 w3 by (simp add: lzw_footer_def Let_def del: write_code.simps)
qed

lemma Palette_write_returns:
  assumes "bit_depth pal \<le> 8" "length (r pal) = 256" "length (g pal) = 256" "length (b pal) = 256"
  shows "\<exists>f'. Palette_write pal f = Some f'"
proof -
  have "(2::nat) ^ bit_depth pal \<le> 2 ^ 8"
    using assms(1) by (intro power_increasing) simp_all
  then have le: "(2::nat) ^ bit_depth pal \<le> 256" by simp
  have "\<exists>f'. for_each [1..<2 ^ bit_depth pal]
           (\<lambda>i f. do {
              pr \<leftarrow> array_at (r pal) (int i);
              pg \<leftarrow> array_at (g pal) (int i);
              pb \<leftarrow> array_at (b pal) (int i);
              Some (fputc (uint pb) (fputc (uint pg) (fputc (uint pr) f)))
            }) f0 = Some f' \<and> True" for f0
    using le assms(2-4) by (intro for_each_invariant) (auto simp: array_at_def)
  then show ?thesis by (simp add: Palette_write_def Let_def)
qed

lemma write_lzw_image_returns:
  assumes "bit_depth pal \<le> 8" "length (r pal) = 256" "length (g pal) = 256" "length (b pal) = 256"
    and "length uninit_chunk = 256"
  shows "\<exists>f'. write_lzw_image uninit_chunk f m img left top0 width height delay pal = Some f'"
proof -
  let ?hdr = "lzw_header left top0 width height delay pal f"
  obtain f1 where f1: "Palette_write pal ?hdr = Some f1"
    using Palette_write_returns[OF assms(1-4)] by blast
  let ?st0 = "\<lparr>bit_index = 0, byte = 0, chunk_index = 0, chunk = uninit_chunk\<rparr>"
  have "chunk_ok ?st0" using assms(5) by (simp add: chunk_ok_def)
  from write_code_bound[OF this, of "fputc (int (bit_depth pal)) f1" "of_nat (2 ^ bit_depth pal)"
      "bit_depth pal + 1"]
  obtain f2 st2 where w: "write_code (fputc (int (bit_depth pal)) f1, ?st0)
      (of_nat (2 ^ bit_depth pal)) (bit_depth pal + 1) = Some (f2, st2)" "chunk_ok st2" by blast
  let ?s0 = "\<lparr>codetree = (\<lambda>_ _. 0), curr_code = - 1, code_size = bit_depth pal + 1,
                  max_code = 2 ^ bit_depth pal + 1, sink = f2, stat = st2\<rparr>"
  have "(2::nat) ^ bit_depth pal \<le> 2 ^ 8"
    using assms(1) by (intro power_increasing) simp_all
  then have ok0: "lzw_ok ?s0" using w(2) by (simp add: lzw_ok_def)
  have mcs: "bit_depth pal \<le> 11" using assms(1) by simp
  have row: "\<exists>s'. for_each [0..<width] (\<lambda>x s.
                 lzw_pixel (bit_depth pal) (mem_read m img ((y * width + x) * 4 + 3)) s) s
          = Some s' \<and> lzw_ok s'" if "lzw_ok s" for y s
  proof (rule for_each_invariant[where I = lzw_ok])
    show "lzw_ok s" by (fact that)
  next
    fix x s1 assume "lzw_ok s1"
    then show "\<exists>s'. lzw_pixel (bit_depth pal) (mem_read m img ((y * width + x) * 4 + 3)) s1
        = Some s' \<and> lzw_ok s'"
      by (rule lzw_pixel_ok[OF _ mcs])
  qed
  have "\<exists>s'. for_each [0..<height] (\<lambda>y s.
               for_each [0..<width] (\<lambda>x s.
                 lzw_pixel (bit_depth pal) (mem_read m img ((y * width + x) * 4 + 3)) s) s) ?s0
          = Some s' \<and> lzw_ok s'"
  proof (rule for_each_invariant[where I = lzw_ok])
    show "lzw_ok ?s0" by (fact ok0)
  next
    fix y s assume "lzw_ok s"
    then show "\<exists>s'. for_each [0..<width] (\<lambda>x s.
                 lzw_pixel (bit_depth pal) (mem_read m img ((y * width + x) * 4 + 3)) s) s
          = Some s' \<and> lzw_ok s'"
      by (rule row)
  qed
  then obtain s' where s': "for_each [0..<height] (\<lambda>y s.
               for_each [0..<width] (\<lambda>x s.
                 lzw_pixel (bit_depth pal) (mem_read m img ((y * width + x) * 4 + 3)) s) s) ?s0
          = Some s'" "lzw_ok s'" by blast
  from lzw_footer_returns[OF s'(2), of "bit_depth pal"] obtain f' where
    "lzw_footer (bit_depth pal) s' = Some f'" by blast
  then show ?thesis using f1 w s' by (simp add: write_lzw_image_def Let_def del: write_code.simps)
qed


text \<open>
  Claim C6. From a bit-stream state with fewer than 255 bytes in the sub-block buffer (as
  the fresh state of a frame is), every single bit write stores inside the 256-byte array
  and leaves at most 255 bytes; \<open>write_code\<close>, which checks for a full sub-block after
  each bit, returns with fewer than 255 bytes again; the final padding to a byte boundary
  adds at most one byte; and so the whole LZW emission of a frame never stores outside the
  array (a store outside it is \<open>None\<close>), for every image and every palette of bit depth
  up to 8.
\<close>

theorem bit_stream_sub_block_bound:
  assumes "chunk_index s < 255" and "length (chunk s) = 256"
    and "bit_depth pal \<le> 8" and "length (r pal) = 256" and "length (g pal) = 256"
    and "length (b pal) = 256" and "length uninit_chunk = 256"
  shows "(\<exists>s1. write_bit s bit_arg = Some s1 \<and> chunk_index s1 \<le> 255 \<and> length (chunk s1) = 256) \<and>
         (\<exists>f' s'. write_code (f, s) code len = Some (f', s') \<and>
            chunk_index s' < 255 \<and> length (chunk s') = 256) \<and>
         (\<exists>s'. pad_to_byte s = Some s' \<and> chunk_index s' \<le> chunk_index s + 1) \<and>
         (\<exists>f'. write_lzw_image uninit_chunk f m img left top0 width height delay pal = Some f')"
proof -
  have ok: "chunk_ok s" using assms(1,2) by (simp add: chunk_ok_def)
  have "\<exists>s1. write_bit s bit_arg = Some s1 \<and> chunk_index s1 \<le> 255 \<and> length (chunk s1) = 256"
    using write_bit_bound[OF ok, of bit_arg] by blast
  moreover have "\<exists>f' s'. write_code (f, s) code len = Some (f', s') \<and>
            chunk_index s' < 255 \<and> length (chunk s') = 256"
    using write_code_bound[OF ok, of f code len] by (simp add: chunk_ok_def)
  moreover have "\<exists>s'. pad_to_byte s = Some s' \<and> chunk_index s' \<le> chunk_index s + 1"
    using pad_to_byte_bound[OF ok] by blast
  moreover have "\<exists>f'. write_lzw_image uninit_chunk f m img left top0 width height delay pal = Some f'"
    by (rule write_lzw_image_returns[OF assms(3-7)])
  ultimately show ?thesis by blast
qed

theorem bit_stream_sub_block_bound_witness:
  "chunk_index example_stat < 255 \<and> length (chunk example_stat) = 256 \<and>
   bit_depth example_palette \<le> 8 \<and> length (r example_palette) = 256 \<and>
   length (g example_palette) = 256 \<and> length (b example_palette) = 256 \<and>
   length (replicate 256 (0::u8)) = 256 \<and>
   (\<exists>s1. write_bit example_stat 1 = Some s1 \<and> chunk_index s1 \<le> 255 \<and> length (chunk s1) = 256) \<and>
   (\<exists>f' s'. write_code ([], example_stat) 5 3 = Some (f', s') \<and>
      chunk_index s' < 255 \<and> length (chunk s') = 256) \<and>
   (\<exists>s'. pad_to_byte example_stat = Some s' \<and> chunk_index s' \<le> chunk_index example_stat + 1) \<and>
   (\<exists>f'. write_lzw_image (replicate 256 0) [] example_memory 1 0 0 1 2 0 example_palette = Some f')"
proof -
  have h: "chunk_index example_stat < 255" "length (chunk example_stat) = 256"
    "bit_depth example_palette \<le> 8" "length (r example_palette) = 256"
    "length (g example_palette) = 256" "length (b example_palette) = 256"
    "length (replicate 256 (0::u8)) = 256"
    by (simp_all add: example_stat_def example_palette_def)
  show ?thesis
    using h bit_stream_sub_block_bound[OF h, where bit_arg = 1 and f = "[]" and code = 5
        and len = 3 and m = example_memory and img = 1 and left = 0 and ?top0.0 = 0
        and width = 1 and height = 2 and delay = 0]
    by blast
qed

text \<open>
  Claim C3. In the pixel loop of the LZW encoder, when the current run cannot be extended
  (the dictionary has no entry for it), \<open>curr_code\<close> is emitted at the current
  \<open>code_size\<close>; the new run is recorded under the incremented \<open>max_code\<close>, and then
  \<open>code_size\<close> grows by one exactly when the new \<open>max_code\<close> has reached
  \<open>2 ^ code_size\<close>. When the new \<open>max_code\<close> is 4095, a clear code is emitted at that
  (possibly grown) \<open>code_size\<close>, the whole dictionary is zeroed, \<open>code_size\<close> is reset to
  \<open>min_code_size + 1\<close> and \<open>max_code\<close> to \<open>clear_code + 1\<close>.
\<close>

theorem lzw_dictionary_growth:
  assumes "0 \<le> curr_code s" and "nat (curr_code s) < codetree_size"
    and "codetree s (nat (curr_code s)) next_value = 0"
    and "max_code s < 4095"
    and "chunk_index (stat s) < 255" and "length (chunk (stat s)) = 256"
  shows "\<exists>f1 st1.
     write_code (sink s, stat s) (word_of_int (curr_code s)) (code_size s) = Some (f1, st1) \<and>
     (let new_max = max_code s + 1;
          grown = (if new_max \<ge> 2 ^ code_size s then code_size s + 1 else code_size s)
      in if new_max = 4095
         then \<exists>f2 st2.
            write_code (f1, st1) (of_nat (2 ^ min_code_size)) grown = Some (f2, st2) \<and>
            lzw_pixel min_code_size next_value s =
              Some \<lparr>codetree = (\<lambda>_ _. 0), curr_code = uint next_value,
                    code_size = min_code_size + 1, max_code = 2 ^ min_code_size + 1,
                    sink = f2, stat = st2\<rparr>
         else \<exists>s'.
            lzw_pixel min_code_size next_value s = Some s' \<and>
            unat (codetree s' (nat (curr_code s)) next_value) = new_max \<and>
            (\<forall>c v. (c, v) \<noteq> (nat (curr_code s), next_value) \<longrightarrow>
               codetree s' c v = codetree s c v) \<and>
            max_code s' = new_max \<and> code_size s' = grown \<and>
            sink s' = f1 \<and> stat s' = st1 \<and> curr_code s' = uint next_value)"
proof -
  have ok: "chunk_ok (stat s)" using assms(5,6) by (simp add: chunk_ok_def)
  from write_code_bound[OF ok, of "sink s" "word_of_int (curr_code s)" "code_size s"]
  obtain f1 st1 where w1: "write_code (sink s, stat s) (word_of_int (curr_code s)) (code_size s)
      = Some (f1, st1)" "chunk_ok st1"
    by blast
  note eq = lzw_pixel_new[OF assms(1-3) w1(1), of min_code_size]
  let ?grown = "if max_code s + 1 \<ge> 2 ^ code_size s then code_size s + 1 else code_size s"
  have "if max_code s + 1 = 4095
         then \<exists>f2 st2.
            write_code (f1, st1) (of_nat (2 ^ min_code_size)) ?grown = Some (f2, st2) \<and>
            lzw_pixel min_code_size next_value s =
              Some \<lparr>codetree = (\<lambda>_ _. 0), curr_code = uint next_value,
                    code_size = min_code_size + 1, max_code = 2 ^ min_code_size + 1,
                    sink = f2, stat = st2\<rparr>
         else \<exists>s'.
            lzw_pixel min_code_size next_value s = Some s' \<and>
            unat (codetree s' (nat (curr_code s)) next_value) = max_code s + 1 \<and>
            (\<forall>c v. (c, v) \<noteq> (nat (curr_code s), next_value) \<longrightarrow>
               codetree s' c v = codetree s c v) \<and>
            max_code s' = max_code s + 1 \<and> code_size s' = ?grown \<and>
            sink s' = f1 \<and> stat s' = st1 \<and> curr_code s' = uint next_value"
  proof (cases "max_code s + 1 = 4095")
    case True
    from write_code_bound[OF w1(2), of f1 "of_nat (2 ^ min_code_size)" ?grown]
    obtain f2 st2 where w2: "write_code (f1, st1) (of_nat (2 ^ min_code_size)) ?grown = Some (f2, st2)"
      by blast
    show ?thesis unfolding eq using True w2 by (simp del: of_nat_power)
  next
    case False
    have "max_code s + 1 < 65536" using assms(4) by simp
    then have u: "unat (of_nat (max_code s + 1) :: 16 word) = max_code s + 1"
      by (rule unat_of_nat_u16)
    show ?thesis unfolding eq using False u by (auto simp del: of_nat_add of_nat_Suc)
  qed
  then show ?thesis using w1(1) unfolding Let_def by blast
qed

theorem lzw_dictionary_growth_witness:
  "0 \<le> curr_code example_lzw_state \<and> nat (curr_code example_lzw_state) < codetree_size \<and>
   codetree example_lzw_state (nat (curr_code example_lzw_state)) 0 = 0 \<and>
   max_code example_lzw_state < 4095 \<and>
   chunk_index (stat example_lzw_state) < 255 \<and> length (chunk (stat example_lzw_state)) = 256 \<and>
   write_code ([], example_stat) 1 2 = Some ([], example_stat\<lparr>bit_index := 2, byte := 1\<rparr>) \<and>
   (\<exists>s'. lzw_pixel 1 0 example_lzw_state = Some s' \<and>
      unat (codetree s' 1 0) = 4 \<and> max_code s' = 4 \<and> code_size s' = 3 \<and>
      sink s' = [] \<and> stat s' = example_stat\<lparr>bit_index := 2, byte := 1\<rparr> \<and> curr_code s' = 0)"
proof -
  have h: "0 \<le> curr_code example_lzw_state" "nat (curr_code example_lzw_state) < codetree_size"
    "codetree example_lzw_state (nat (curr_code example_lzw_state)) 0 = 0"
    "max_code example_lzw_state < 4095"
    "chunk_index (stat example_lzw_state) < 255" "length (chunk (stat example_lzw_state)) = 256"
    by (simp_all add: example_lzw_state_def example_stat_def codetree_size_def)
  have w: "write_code ([], example_stat) 1 2 = Some ([], example_stat\<lparr>bit_index := 2, byte := 1\<rparr>)"
    by (simp add: numeral_2_eq_2 write_bit_def example_stat_def Let_def)
  show ?thesis
    using h w lzw_dictionary_growth[OF h, of 1]
    by (auto simp: example_lzw_state_def Let_def)
qed

section \<open>The writer's lifecycle\<close>


text \<open>
  Claim C7. On a writer whose sink has been released (by a successful \<open>close\<close>, or
  because it was never opened), \<open>write_frame\<close> returns false, writes nothing and
  leaves the writer, the memory and the sink as they are, and \<open>close\<close> returns false
  as well; \<open>close\<close> on an open writer returns true, and a second \<open>close\<close> returns false.
\<close>

theorem closed_writer_reports_closed:
  "(\<not> f_handle w \<longrightarrow>
      Writer_write_frame uninit_palette uninit_chunk (w, m, s) img width height delay depth dither
        = Some (False, w, m, s) \<and>
      Writer_close (w, m, s) = (False, w, m, s)) \<and>
   \<not> f_handle default_writer \<and>
   (f_handle w \<longrightarrow>
      (\<exists>w' s'. Writer_close (w, m, s) = (True, w', m, s') \<and> \<not> f_handle w' \<and>
         Writer_close (w', m, s') = (False, w', m, s') \<and>
         Writer_write_frame uninit_palette uninit_chunk (w', m, s') img width height delay depth dither
           = Some (False, w', m, s')))"
  by (simp add: Writer_write_frame_def Writer_close_def default_writer_def)

theorem closed_writer_reports_closed_witness:
  "\<not> f_handle default_writer \<and>
   Writer_write_frame example_palette [] (default_writer, example_memory, example_sink) 0 1 2 0 1 False
     = Some (False, default_writer, example_memory, example_sink) \<and>
   Writer_close (default_writer, example_memory, example_sink)
     = (False, default_writer, example_memory, example_sink) \<and>
   f_handle example_writer \<and>
   (\<exists>w' s'. Writer_close (example_writer, example_memory, example_sink)
        = (True, w', example_memory, s') \<and> \<not> f_handle w' \<and>
      Writer_close (w', example_memory, s') = (False, w', example_memory, s'))"
proof -
  have c: "\<not> f_handle default_writer" by (simp add: default_writer_def)
  have o: "f_handle example_writer" by (simp add: example_writer_def)
  show ?thesis
    using c o
      closed_writer_reports_closed[of default_writer example_palette "[]" example_memory
        example_sink 0 1 2 0 1 False]
      closed_writer_reports_closed[of example_writer example_palette "[]" example_memory
        example_sink 0 1 2 0 1 False]
    by blast
qed

lemma run_ops_append:
  "run_ops (xs @ ys) st = (case run_ops xs st of None \<Rightarrow> None | Some st' \<Rightarrow> run_ops ys st')"
  by (induction xs st rule: run_ops.induct) (auto split: option.splits)

lemma run_ops_closed:
  "\<not> f_handle w \<Longrightarrow> run_ops ops (w, m, s) = Some (w, m, s)"
proof (induction ops)
  case Nil
  then show ?case by simp
next
  case (Cons op ops)
  then show ?case
    by (cases op) (simp_all add: Writer_write_frame_def Writer_close_def)
qed

lemma Writer_write_frame_open:
  assumes "Writer_write_frame up uc (w, m, s) img width height delay depth dither = Some (ok, w', m', s')"
  shows "f_handle w' = f_handle w \<and> closed s' = closed s"
  using assms
  by (auto simp: Writer_write_frame_def Let_def split: if_splits Option.bind_splits)

lemma run_ops_frames_open:
  assumes "run_ops ops (w, m, s) = Some (w', m', s')" and "\<forall>op \<in> set ops. \<not> is_Close op"
  shows "f_handle w' = f_handle w \<and> closed s' = closed s"
  using assms
proof (induction ops arbitrary: w m s)
  case Nil
  then show ?case by simp
next
  case (Cons op ops)
  show ?case
  proof (cases op)
    case (Write_frame up uc img width height delay depth dither)
    with Cons.prems(1) obtain ok w1 m1 s1 where
      1: "Writer_write_frame up uc (w, m, s) img width height delay depth dither = Some (ok, w1, m1, s1)"
      and 2: "run_ops ops (w1, m1, s1) = Some (w', m', s')"
      by (auto split: option.splits)
    from Writer_write_frame_open[OF 1] Cons.IH[OF 2] Cons.prems(2) show ?thesis by simp
  next
    case Close
    with Cons.prems(2) show ?thesis by simp
  qed
qed

text \<open>
  Claim C8. For a writer created by a successful \<open>Writer::open\<close>, whatever sequence of
  \<open>write_frame\<close> and \<open>close\<close> calls follows (results ignored or not) and with the
  destructor at the end, the sink ends with the bytes written up to the release (the
  first \<open>close\<close>, or the destructor if there is none) followed by the single trailer
  byte 0x3B, and it has been closed exactly once.
\<close>

theorem trailer_on_release:
  assumes "Writer_open True addr m0 width height delay depth dither = Some st0"
    and "run_ops (takeWhile (\<lambda>op. \<not> is_Close op) ops) st0 = Some (w1, m1, s1)"
  shows "\<exists>final. writer_lifetime ops st0 = Some final \<and>
           contents final = contents s1 @ [0x3B] \<and> closed final = 1"
proof -
  let ?pre = "takeWhile (\<lambda>op. \<not> is_Close op) ops"
  let ?rest = "dropWhile (\<lambda>op. \<not> is_Close op) ops"
  obtain w0 m0' s0 where st0: "st0 = (w0, m0', s0)" by (cases st0)
  have o: "f_handle w0" "closed s0 = 0"
    using assms(1) st0 by (auto simp: Writer_open_def Let_def split: if_splits)
  have "\<forall>op \<in> set ?pre. \<not> is_Close op"
    by (auto dest: set_takeWhileD)
  from run_ops_frames_open[OF assms(2)[unfolded st0] this] o
  have o1: "f_handle w1" "closed s1 = 0" by simp_all
  have run: "run_ops ops st0 = run_ops ?rest (w1, m1, s1)"
    using run_ops_append[of ?pre ?rest st0] assms(2) by simp
  show ?thesis
  proof (cases ?rest)
    case Nil
    have "run_ops ops st0 = Some (w1, m1, s1)"
      using run unfolding Nil by simp
    then show ?thesis using o1
      by (simp add: writer_lifetime_def Writer_drop_def file_deleter_def fputc_def)
  next
    case (Cons op rest')
    then have "is_Close op"
      using hd_dropWhile[of "\<lambda>op. \<not> is_Close op" ops] by auto
    then have op: "op = Close" by (cases op) simp_all
    have "run_ops (op # rest') (w1, m1, s1)
        = Some (w1\<lparr>f_handle := False, old_image := None\<rparr>, m1, file_deleter s1)"
      using op o1 run_ops_closed[of "w1\<lparr>f_handle := False, old_image := None\<rparr>" rest' m1
          "file_deleter s1"]
      by (simp add: Writer_close_def)
    then have "run_ops ops st0
        = Some (w1\<lparr>f_handle := False, old_image := None\<rparr>, m1, file_deleter s1)"
      using run unfolding Cons by simp
    then show ?thesis using o1
      by (simp add: writer_lifetime_def Writer_drop_def file_deleter_def fputc_def)
  qed
qed

theorem trailer_on_release_witness:
  "Writer_open True 1 example_memory 1 2 0 1 False
     = Some (example_writer, example_memory(1 := replicate 8 0),
             \<lparr>contents = [71, 73, 70, 56, 57, 97, 1, 0, 2, 0, 240, 0, 0, 0, 0, 0, 0, 0, 0],
              closed = 0\<rparr>) \<and>
   run_ops (takeWhile (\<lambda>op. \<not> is_Close op) [Close, Write_frame example_palette [] 0 1 2 0 1 False, Close])
     (example_writer, example_memory(1 := replicate 8 0),
      \<lparr>contents = [71, 73, 70, 56, 57, 97, 1, 0, 2, 0, 240, 0, 0, 0, 0, 0, 0, 0, 0], closed = 0\<rparr>)
     = Some (example_writer, example_memory(1 := replicate 8 0),
      \<lparr>contents = [71, 73, 70, 56, 57, 97, 1, 0, 2, 0, 240, 0, 0, 0, 0, 0, 0, 0, 0], closed = 0\<rparr>) \<and>
   (\<exists>final. writer_lifetime [Close, Write_frame example_palette [] 0 1 2 0 1 False, Close]
        (example_writer, example_memory(1 := replicate 8 0),
         \<lparr>contents = [71, 73, 70, 56, 57, 97, 1, 0, 2, 0, 240, 0, 0, 0, 0, 0, 0, 0, 0], closed = 0\<rparr>)
        = Some final \<and>
      contents final = [71, 73, 70, 56, 57, 97, 1, 0, 2, 0, 240, 0, 0, 0, 0, 0, 0, 0, 0, 0x3B] \<and>
      closed final = 1)"
proof -
  have h1: "Writer_open True 1 example_memory 1 2 0 1 False
     = Some (example_writer, example_memory(1 := replicate 8 0),
             \<lparr>contents = [71, 73, 70, 56, 57, 97, 1, 0, 2, 0, 240, 0, 0, 0, 0, 0, 0, 0, 0],
              closed = 0\<rparr>)"
    by (simp add: Writer_open_def example_writer_def fputc_def fputs_def Let_def)
  have h2: "run_ops (takeWhile (\<lambda>op. \<not> is_Close op) [Close, Write_frame example_palette [] 0 1 2 0 1 False, Close])
     (example_writer, example_memory(1 := replicate 8 0),
      \<lparr>contents = [71, 73, 70, 56, 57, 97, 1, 0, 2, 0, 240, 0, 0, 0, 0, 0, 0, 0, 0], closed = 0\<rparr>)
     = Some (example_writer, example_memory(1 := replicate 8 0),
      \<lparr>contents = [71, 73, 70, 56, 57, 97, 1, 0, 2, 0, 240, 0, 0, 0, 0, 0, 0, 0, 0], closed = 0\<rparr>)"
    by simp
  show ?thesis
    using h1 h2 trailer_on_release[OF h1 h2] by simp
qed


section \<open>The nearest-colour query and the palette constructor\<close>


lemma improves_trans: "improves p a b' \<Longrightarrow> improves p b' c \<Longrightarrow> improves p a c"
  by (auto simp: improves_def)

text \<open>Induction over a returning nearest-colour query: a leaf, or a node with its near and far subtree.\<close>

lemma query_induct [consumes 1, case_names leaf node]:
  assumes ret: "get_closest_pallete_color p rr gg bb best t = Some res"
    and leaf: "\<And>best t res. 2 ^ bit_depth p - 1 < t \<Longrightarrow>
        (if t - 2 ^ bit_depth p = 0 then Some best
         else do {
           pr \<leftarrow> array_at (r p) (t - 2 ^ bit_depth p);
           pg \<leftarrow> array_at (g p) (t - 2 ^ bit_depth p);
           pb \<leftarrow> array_at (b p) (t - 2 ^ bit_depth p);
           if \<bar>rr - uint pr\<bar> + \<bar>gg - uint pg\<bar> + \<bar>bb - uint pb\<bar> < snd best
           then Some (t - 2 ^ bit_depth p, \<bar>rr - uint pr\<bar> + \<bar>gg - uint pg\<bar> + \<bar>bb - uint pb\<bar>)
           else Some best
         }) = Some res \<Longrightarrow> Q best t res"
    and node: "\<And>best t res axis split_comp pos near far best1.
        \<not> 2 ^ bit_depth p - 1 < t \<Longrightarrow>
        array_at (tree_split_elt p) t = Some axis \<Longrightarrow>
        array_at [rr, gg, bb] (uint axis) = Some split_comp \<Longrightarrow>
        array_at (tree_split p) t = Some pos \<Longrightarrow>
        (near, far) = (if uint pos > split_comp then (t * 2, t * 2 + 1) else (t * 2 + 1, t * 2)) \<Longrightarrow>
        get_closest_pallete_color p rr gg bb best near = Some best1 \<Longrightarrow>
        Q best near best1 \<Longrightarrow>
        (res = best1 \<and> \<not> snd best1 > \<bar>uint pos - split_comp\<bar>) \<or>
        (snd best1 > \<bar>uint pos - split_comp\<bar> \<and>
           get_closest_pallete_color p rr gg bb best1 far = Some res \<and> Q best1 far res) \<Longrightarrow>
        Q best t res"
  shows "Q best t res"
proof -
  have "p = p \<and> rr = rr \<and> gg = gg \<and> bb = bb \<longrightarrow>
    get_closest_pallete_color p rr gg bb best t = Some res \<and> Q best t res"
  proof (rule get_closest_pallete_color.raw_induct[where P = "\<lambda>p' rr' gg' bb' best t res.
      p' = p \<and> rr' = rr \<and> gg' = gg \<and> bb' = bb \<longrightarrow>
        get_closest_pallete_color p rr gg bb best t = Some res \<and> Q best t res",
        OF _ ret])
    fix query :: "Palette \<Rightarrow> int \<Rightarrow> int \<Rightarrow> int \<Rightarrow> int \<times> int \<Rightarrow> int \<Rightarrow> (int \<times> int) option"
      and p' rr' gg' bb' best t res
    assume IH: "\<And>p' rr' gg' bb' best t res. query p' rr' gg' bb' best t = Some res \<Longrightarrow>
        p' = p \<and> rr' = rr \<and> gg' = gg \<and> bb' = bb \<longrightarrow>
        get_closest_pallete_color p rr gg bb best t = Some res \<and> Q best t res"
    assume body: "(if t > 2 ^ bit_depth p' - 1 then
       (let ind = t - 2 ^ bit_depth p' in
        if ind = transparency_index then Some best
        else do {
          pr \<leftarrow> array_at (r p') ind;
          pg \<leftarrow> array_at (g p') ind;
          pb \<leftarrow> array_at (b p') ind;
          let r_err = rr' - uint pr;
          let g_err = gg' - uint pg;
          let b_err = bb' - uint pb;
          let diff = \<bar>r_err\<bar> + \<bar>g_err\<bar> + \<bar>b_err\<bar>;
          if diff < snd best then Some (ind, diff) else Some best
        })
     else do {
       axis \<leftarrow> array_at (tree_split_elt p') t;
       split_comp \<leftarrow> array_at [rr', gg', bb'] (uint axis);
       pos \<leftarrow> array_at (tree_split p') t;
       let split_pos = uint pos;
       if split_pos > split_comp then do {
         best1 \<leftarrow> query p' rr' gg' bb' best (t * 2);
         if snd best1 > split_pos - split_comp
         then query p' rr' gg' bb' best1 (t * 2 + 1)
         else Some best1
       } else do {
         best1 \<leftarrow> query p' rr' gg' bb' best (t * 2 + 1);
         if snd best1 > split_comp - split_pos
         then query p' rr' gg' bb' best1 (t * 2)
         else Some best1
       }
     }) = Some res"
    show "p' = p \<and> rr' = rr \<and> gg' = gg \<and> bb' = bb \<longrightarrow>
        get_closest_pallete_color p rr gg bb best t = Some res \<and> Q best t res"
    proof
      assume eq0: "p' = p \<and> rr' = rr \<and> gg' = gg \<and> bb' = bb"
      then have eq: "p' = p" "rr' = rr" "gg' = gg" "bb' = bb" by simp_all
      note body = body[unfolded eq Let_def transparency_index_def]
      show "get_closest_pallete_color p rr gg bb best t = Some res \<and> Q best t res"
      proof (cases "2 ^ bit_depth p - 1 < t")
        case True
        have l: "(if t - 2 ^ bit_depth p = 0 then Some best
         else do {
           pr \<leftarrow> array_at (r p) (t - 2 ^ bit_depth p);
           pg \<leftarrow> array_at (g p) (t - 2 ^ bit_depth p);
           pb \<leftarrow> array_at (b p) (t - 2 ^ bit_depth p);
           if \<bar>rr - uint pr\<bar> + \<bar>gg - uint pg\<bar> + \<bar>bb - uint pb\<bar> < snd best
           then Some (t - 2 ^ bit_depth p, \<bar>rr - uint pr\<bar> + \<bar>gg - uint pg\<bar> + \<bar>bb - uint pb\<bar>)
           else Some best
         }) = Some res"
          using body True by (simp split: if_splits)
        have "get_closest_pallete_color p rr gg bb best t = Some res"
          using l True by (subst get_closest_pallete_color.simps)
            (simp add: Let_def transparency_index_def split: if_splits)
        then show ?thesis using leaf[OF True l] by simp
      next
        case False
        from body False obtain axis split_comp pos where
          ax: "array_at (tree_split_elt p) t = Some axis"
          and sc: "array_at [rr, gg, bb] (uint axis) = Some split_comp"
          and ps: "array_at (tree_split p) t = Some pos"
          by (auto split: Option.bind_splits)
        define near where "near = (if uint pos > split_comp then t * 2 else t * 2 + 1)"
        define far where "far = (if uint pos > split_comp then t * 2 + 1 else t * 2)"
        have nf: "(near, far) = (if uint pos > split_comp then (t * 2, t * 2 + 1) else (t * 2 + 1, t * 2))"
          by (simp add: near_def far_def)
        from body False ax sc ps obtain best1 where
          b1: "query p rr gg bb best near = Some best1"
          and rest: "(if snd best1 > \<bar>uint pos - split_comp\<bar> then query p rr gg bb best1 far
                      else Some best1) = Some res"
          by (auto simp: Let_def near_def far_def split: if_splits Option.bind_splits)
        from IH[OF b1] have n1: "get_closest_pallete_color p rr gg bb best near = Some best1"
          and q1: "Q best near best1" by simp_all
        have disj: "(res = best1 \<and> \<not> snd best1 > \<bar>uint pos - split_comp\<bar>) \<or>
          (snd best1 > \<bar>uint pos - split_comp\<bar> \<and>
           get_closest_pallete_color p rr gg bb best1 far = Some res \<and> Q best1 far res)"
        proof (cases "snd best1 > \<bar>uint pos - split_comp\<bar>")
          case True
          then have "query p rr gg bb best1 far = Some res" using rest by simp
          from IH[OF this] True show ?thesis by simp
        next
          case False
          then show ?thesis using rest by simp
        qed
        have "get_closest_pallete_color p rr gg bb best t = Some res"
          using False ax sc ps n1 disj
          by (subst get_closest_pallete_color.simps)
            (auto simp: Let_def near_def far_def split: if_splits)
        moreover have "Q best t res"
          by (rule node[OF False ax sc ps nf n1 q1 disj])
        ultimately show ?thesis by simp
      qed
    qed
  qed
  then show ?thesis by simp
qed

lemma query_improves:
  assumes "get_closest_pallete_color p rr gg bb best t = Some res"
  shows "1 \<le> t \<longrightarrow> t < 2 ^ (bit_depth p + 1) \<longrightarrow> improves p best res"
  using assms
proof (induction rule: query_induct)
  case (leaf best t res)
  then show ?case
    by (auto simp: improves_def split: if_splits Option.bind_splits)
next
  case (node best t res axis split_comp pos near far best1)
  have c: "1 \<le> t \<longrightarrow> t < 2 ^ (bit_depth p + 1) \<longrightarrow>
     1 \<le> near \<and> near < 2 ^ (bit_depth p + 1) \<and> 1 \<le> far \<and> far < 2 ^ (bit_depth p + 1)"
    using node(1,5) by (auto split: if_splits)
  show ?case
    using node(7,8) c by (auto intro: improves_trans)
qed


lemma query_finds:
  assumes "get_closest_pallete_color p rr gg bb best t = Some res"
    and d1: "1 \<le> bit_depth p"
    and n0: "tree_split_elt p ! (2 ^ (bit_depth p - 1)) = 0" "tree_split p ! (2 ^ (bit_depth p - 1)) = 0"
    and rng: "0 \<le> rr" "rr \<le> 333333" "0 \<le> gg" "gg \<le> 333333" "0 \<le> bb" "bb \<le> 333333"
  shows "1 \<le> t \<longrightarrow> t < 2 ^ (bit_depth p + 1) \<longrightarrow> t \<noteq> 2 ^ bit_depth p \<longrightarrow> snd res < 1000000"
  using assms(1)
proof (induction rule: query_induct)
  case (leaf best t res)
  have byte: "\<bar>v - uint c\<bar> \<le> 333333" if "0 \<le> v" "v \<le> 333333" for v and c :: u8
  proof -
    have "0 \<le> uint c" "uint c < 256" using uint_bounded[of c] by simp_all
    then show ?thesis using that by arith
  qed
  have sum: "\<bar>rr - uint c1\<bar> + \<bar>gg - uint c2\<bar> + \<bar>bb - uint c3\<bar> < 1000000" for c1 c2 c3 :: u8
    using byte[OF rng(1,2), of c1] byte[OF rng(3,4), of c2] byte[OF rng(5,6), of c3] by linarith
  have sum2: "k < 1000000"
    if "\<not> \<bar>rr - uint c1\<bar> + \<bar>gg - uint c2\<bar> + \<bar>bb - uint c3\<bar> < k" for c1 c2 c3 :: u8 and k
    using sum[of c1 c2 c3] that by linarith
  show ?case
    using leaf(2) by (auto split: if_splits Option.bind_splits intro: sum dest: sum2)
next
  case (node best t res axis split_comp pos near far best1)
  show ?case
  proof (intro impI)
    assume t1: "1 \<le> t" and t2: "t < 2 ^ (bit_depth p + 1)"
    have even: "(2::int) ^ bit_depth p = 2 * 2 ^ (bit_depth p - 1)"
      using d1 by (cases "bit_depth p") simp_all
    have rngs: "1 \<le> near" "near < 2 ^ (bit_depth p + 1)" "1 \<le> far" "far < 2 ^ (bit_depth p + 1)"
      using node(1,5) t1 by (auto split: if_splits)
    have "near \<noteq> 2 ^ bit_depth p"
    proof
      assume eq: "near = 2 ^ bit_depth p"
      have "near = t * 2 \<or> near = t * 2 + 1" using node(5) by (auto split: if_splits)
      then have tt: "t = 2 ^ (bit_depth p - 1)" and nl: "near = t * 2"
        using eq even by presburger+
      then have gt: "uint pos > split_comp" using node(5) by (auto split: if_splits)
      have nt: "nat t = 2 ^ (bit_depth p - 1)"
        using tt by (simp add: nat_power_eq)
      have "axis = tree_split_elt p ! nat t" "pos = tree_split p ! nat t"
        using node(2,4) by (auto simp: array_at_def split: if_splits)
      then have "axis = 0" "pos = 0"
        unfolding nt using n0 by simp_all
      then have "split_comp = rr" "uint pos = 0"
        using node(3) by (simp_all add: array_at_def)
      then show False using gt rng(1) by simp
    qed
    then have b1: "snd best1 < 1000000" using node(7) rngs by simp
    from node(8) show "snd res < 1000000"
    proof
      assume "res = best1 \<and> \<not> \<bar>uint pos - split_comp\<bar> < snd best1"
      then show ?thesis using b1 by simp
    next
      assume "\<bar>uint pos - split_comp\<bar> < snd best1 \<and>
        get_closest_pallete_color p rr gg bb best1 far = Some res \<and>
        (1 \<le> far \<longrightarrow> far < 2 ^ (bit_depth p + 1) \<longrightarrow> far \<noteq> 2 ^ bit_depth p \<longrightarrow> snd res < 1000000)"
      then have "improves p best1 res"
        using query_improves[of p rr gg bb best1 far res] rngs by simp
      then show ?thesis using b1 by (simp add: improves_def)
    qed
  qed
qed

lemmas Palette_split_induct = Palette_split.raw_induct[rotated -1, consumes 1, case_names step]

lemma set_color_fields:
  "set_color p elt c = Some p' \<Longrightarrow>
     bit_depth p' = bit_depth p \<and> tree_split_elt p' = tree_split_elt p \<and> tree_split p' = tree_split p \<and>
     length (r p') = length (r p) \<and> length (g p') = length (g p) \<and> length (b p') = length (b p)"
  by (cases c) (auto simp: set_color_def buf_set_def split: Option.bind_splits if_splits)

lemma shape_kept_trans: "shape_kept p p1 \<Longrightarrow> shape_kept p1 p2 \<Longrightarrow> shape_kept p p2"
  by (simp add: shape_kept_def)

lemma Palette_split_preserves:
  assumes "Palette_split p img base num_pixels first_elt last_elt split_elt split_dist tree_node dither
      = Some res"
  shows "shape_kept p (fst res)"
  using assms
proof (induction rule: Palette_split_induct)
  case (step split p img base num_pixels first_elt last_elt split_elt split_dist tree_node dither res)
  consider (empty) "last_elt \<le> first_elt \<or> num_pixels = 0"
    | (leaf) "\<not> (last_elt \<le> first_elt \<or> num_pixels = 0)" "last_elt = first_elt + 1"
    | (inner) "\<not> (last_elt \<le> first_elt \<or> num_pixels = 0)" "last_elt \<noteq> first_elt + 1"
    by blast
  then show ?case
  proof cases
    case empty
    then show ?thesis using step(2) by (auto simp: shape_kept_def)
  next
    case leaf
    with step(2) obtain c where "set_color p first_elt c = Some (fst res)"
      by (auto split: if_splits Option.bind_splits)
    from set_color_fields[OF this] show ?thesis by (simp add: shape_kept_def axes_ok_def)
  next
    case inner
    have upd: "shape_kept p (p\<lparr>tree_split_elt := elts, tree_split := splits\<rparr>)"
      if "buf_set (tree_split_elt p) tree_node com = Some elts"
        "buf_set (tree_split p) tree_node v = Some splits" "com < 3"
      for com :: u8 and elts splits v
      using that
      by (auto simp: shape_kept_def buf_set_def axes_ok_def nth_list_update split: if_splits)
    have chain: "shape_kept p (fst res)"
      if "shape_kept p p1" "split p1 img1 bs1 a1 f1 l1 s1 d1 t1 dither = Some res1"
        "split (fst res1) (snd res1) bs2 a2 f2 l2 s2 d2 t2 dither = Some res"
      for p1 img1 bs1 a1 f1 l1 s1 d1 t1 res1 bs2 a2 f2 l2 s2 d2 t2
      using that(1) step(1)[OF that(2)] step(1)[OF that(3)] by (blast intro: shape_kept_trans)
    from step(2) inner show ?thesis
      by (auto simp: Let_def split: if_splits Option.bind_splits prod.splits
          intro!: chain[OF upd])
  qed
qed


lemma Palette_new_result:
  assumes "Palette_new uninit m last_frame next_frame width height depth dither = Some p"
  shows "1 \<le> depth \<and> bit_depth p = depth \<and>
     r p ! 0 = 0 \<and> g p ! 0 = 0 \<and> b p ! 0 = 0 \<and>
     tree_split_elt p ! (2 ^ (depth - 1)) = 0 \<and> tree_split p ! (2 ^ (depth - 1)) = 0 \<and>
     shape_kept (uninit\<lparr>bit_depth := depth\<rparr>) p"
proof -
  from assms obtain img n res splits elts bs gs rs where
    sp: "Palette_split (uninit\<lparr>bit_depth := depth\<rparr>) img 0 n 1 (2 ^ depth) (2 ^ depth div 2)
           (2 ^ depth div 2 div 2) 1 dither = Some res"
    and d: "depth \<noteq> 0"
    and s1: "buf_set (tree_split (fst res)) (2 ^ (depth - 1)) 0 = Some splits"
    and s2: "buf_set (tree_split_elt (fst res)) (2 ^ (depth - 1)) 0 = Some elts"
    and s3: "buf_set (b (fst res)) 0 0 = Some bs"
    and s4: "buf_set (g (fst res)) 0 0 = Some gs"
    and s5: "buf_set (r (fst res)) 0 0 = Some rs"
    and p: "p = (fst res)\<lparr>tree_split := splits, tree_split_elt := elts, b := bs, g := gs, r := rs\<rparr>"
    by (auto simp: Palette_new_def Let_def split: Option.bind_splits if_splits prod.splits)
  have k: "shape_kept (uninit\<lparr>bit_depth := depth\<rparr>) (fst res)"
    by (rule Palette_split_preserves[OF sp])
  have "shape_kept (fst res) p"
    using s1 s2 s3 s4 s5 unfolding p
    by (auto simp: shape_kept_def buf_set_def axes_ok_def nth_list_update split: if_splits)
  with k have "shape_kept (uninit\<lparr>bit_depth := depth\<rparr>) p"
    by (rule shape_kept_trans)
  moreover have "bit_depth p = depth"
    using k unfolding p by (simp add: shape_kept_def)
  ultimately show ?thesis
    using d s1 s2 s3 s4 s5 unfolding p
    by (auto simp: buf_set_def split: if_splits)
qed

lemma query_returns:
  assumes ok: "axes_ok p"
    and len: "length (tree_split_elt p) = 256" "length (tree_split p) = 256"
      "length (r p) = 256" "length (g p) = 256" "length (b p) = 256"
    and d: "bit_depth p \<le> 8"
  shows "1 \<le> t \<Longrightarrow> t < 2 ^ (bit_depth p + 1) \<Longrightarrow>
    \<exists>res. get_closest_pallete_color p rr gg bb best t = Some res"
proof (induction "nat (2 ^ (bit_depth p + 1) - t)" arbitrary: t best rule: less_induct)
  case less
  have "(2::int) ^ bit_depth p \<le> 2 ^ 8"
    using d by (intro power_increasing) simp_all
  then have p256: "(2::int) ^ bit_depth p \<le> 256" by simp
  show ?case
  proof (cases "2 ^ bit_depth p - 1 < t")
    case True
    then have "0 \<le> t - 2 ^ bit_depth p" "t - 2 ^ bit_depth p < 256"
      using less.prems p256 by simp_all
    then show ?thesis
      by (subst get_closest_pallete_color.simps)
        (simp add: True array_at_def len Let_def)
  next
    case False
    then have t256: "0 \<le> t" "t < 256" "nat t < 256" using less.prems p256 by simp_all
    have ax: "tree_split_elt p ! nat t < 3"
      using ok t256 len by (simp add: axes_ok_def)
    then have "uint (tree_split_elt p ! nat t) < 3"
      by (simp add: word_less_def)
    then have comp: "\<exists>c. array_at [rr, gg, bb] (uint (tree_split_elt p ! nat t)) = Some c"
      by (simp add: array_at_def)
    have kid1: "\<exists>res. get_closest_pallete_color p rr gg bb best' (t * 2) = Some res" for best'
    proof (rule less.hyps)
      show "nat (2 ^ (bit_depth p + 1) - t * 2) < nat (2 ^ (bit_depth p + 1) - t)"
        using False less.prems by simp
      show "1 \<le> t * 2" "t * 2 < 2 ^ (bit_depth p + 1)"
        using False less.prems by simp_all
    qed
    have kid2: "\<exists>res. get_closest_pallete_color p rr gg bb best' (t * 2 + 1) = Some res" for best'
    proof (rule less.hyps)
      show "nat (2 ^ (bit_depth p + 1) - (t * 2 + 1)) < nat (2 ^ (bit_depth p + 1) - t)"
        using False less.prems by simp
      show "1 \<le> t * 2 + 1" "t * 2 + 1 < 2 ^ (bit_depth p + 1)"
        using False less.prems by simp_all
    qed
    note kids = kid1 kid2
    from comp obtain c where c: "array_at [rr, gg, bb] (uint (tree_split_elt p ! nat t)) = Some c"
      by blast
    define pos where "pos = uint (tree_split p ! nat t)"
    define near where "near = (if pos > c then t * 2 else t * 2 + 1)"
    define far where "far = (if pos > c then t * 2 + 1 else t * 2)"
    have "\<exists>best1. get_closest_pallete_color p rr gg bb best near = Some best1"
      using kids[of best] by (cases "pos > c") (simp_all add: near_def)
    then obtain best1 where b1: "get_closest_pallete_color p rr gg bb best near = Some best1"
      by blast
    have "\<exists>res2. get_closest_pallete_color p rr gg bb best1 far = Some res2"
      using kids[of best1] by (cases "pos > c") (simp_all add: far_def)
    then obtain res2 where b2: "get_closest_pallete_color p rr gg bb best1 far = Some res2"
      by blast
    show ?thesis
      using False t256 c b1 b2
      by (subst get_closest_pallete_color.simps)
        (auto simp: array_at_def len Let_def pos_def near_def far_def)
  qed
qed



lemmas palette_eval = Palette_new_def Palette_split.simps partition_by_median.simps
  partition_pixels_def partition_step_def swap_pixels_def find_largest_range_def
  find_subcube_average_def find_darkest_color_def find_lightest_color_def set_color_def
  pick_changed_pixels_def copy_image_def buf_at_def buf_set_def pixat_def pixidx_def

lemma one_pixel_palette_built:
  "Palette_new uninit_zero one_pixel_memory None 0 1 1 1 False = Some one_pixel_palette"
  by (simp add: palette_eval uninit_zero_def one_pixel_memory_def one_pixel_palette_def Let_def)

text \<open>
  Claim C2, as amended. Every palette that the constructor returns has colour 0 equal to
  (0, 0, 0) and split axis 0 and split value 0 in the tree node \<open>2 ^ (bit_depth - 1)\<close>.
  For a query from the root with \<open>best_diff = 1000000\<close>, \<open>best_ind\<close> 0 or 1, and colour
  components between 0 and 333333 (every 8-bit colour among them), a returned
  \<open>best_ind\<close> lies between 1 and \<open>2 ^ bit_depth - 1\<close>; and the query does return when the
  bit depth is at most 8 and the indeterminate initial contents of the split-axis array
  hold axes 0, 1 or 2 only.
\<close>

theorem transparency_slot_excluded:
  assumes "Palette_new uninit m last_frame next_frame width height depth dither = Some p"
    and "best_ind = 0 \<or> best_ind = 1"
    and "0 \<le> rr" and "rr \<le> 333333" and "0 \<le> gg" and "gg \<le> 333333"
    and "0 \<le> bb" and "bb \<le> 333333"
  shows "r p ! 0 = 0 \<and> g p ! 0 = 0 \<and> b p ! 0 = 0 \<and>
     tree_split_elt p ! (2 ^ (depth - 1)) = 0 \<and> tree_split p ! (2 ^ (depth - 1)) = 0 \<and>
     (\<forall>res. get_closest_pallete_color p rr gg bb (best_ind, 1000000) 1 = Some res \<longrightarrow>
        1 \<le> fst res \<and> fst res \<le> 2 ^ depth - 1) \<and>
     (depth \<le> 8 \<and> axes_ok uninit \<and> length (tree_split_elt uninit) = 256 \<and>
      length (tree_split uninit) = 256 \<and> length (r uninit) = 256 \<and> length (g uninit) = 256 \<and>
      length (b uninit) = 256 \<longrightarrow>
        (\<exists>res. get_closest_pallete_color p rr gg bb (best_ind, 1000000) 1 = Some res))"
proof -
  note res = Palette_new_result[OF assms(1)]
  have d: "1 \<le> bit_depth p" and bd: "bit_depth p = depth" using res by simp_all
  have n0: "tree_split_elt p ! (2 ^ (bit_depth p - 1)) = 0" "tree_split p ! (2 ^ (bit_depth p - 1)) = 0"
    using res by simp_all
  have two: "(2::int) \<le> 2 ^ bit_depth p"
    using d power_increasing[of 1 "bit_depth p" "2::int"] by simp
  have root: "(1::int) \<le> 1" "(1::int) < 2 ^ (bit_depth p + 1)" "(1::int) \<noteq> 2 ^ bit_depth p"
    using two by simp_all
  have rng: "1 \<le> fst res \<and> fst res \<le> 2 ^ depth - 1"
    if q: "get_closest_pallete_color p rr gg bb (best_ind, 1000000) 1 = Some res" for res
  proof -
    have "snd res < 1000000"
      using query_finds[OF q d n0 assms(3-8)] root by simp
    moreover have "improves p (best_ind, 1000000) res"
      using query_improves[OF q] root by simp
    ultimately show ?thesis
      using bd by (auto simp: improves_def)
  qed
  have ret: "\<exists>res. get_closest_pallete_color p rr gg bb (best_ind, 1000000) 1 = Some res"
    if "depth \<le> 8" "axes_ok uninit" "length (tree_split_elt uninit) = 256"
      "length (tree_split uninit) = 256" "length (r uninit) = 256" "length (g uninit) = 256"
      "length (b uninit) = 256"
  proof -
    have "axes_ok (uninit\<lparr>bit_depth := depth\<rparr>)"
      using that(2) by (simp add: axes_ok_def)
    then have "axes_ok p" "length (tree_split_elt p) = 256" "length (tree_split p) = 256"
      "length (r p) = 256" "length (g p) = 256" "length (b p) = 256"
      using res that by (simp_all add: shape_kept_def)
    moreover have "bit_depth p \<le> 8" using bd that(1) by simp
    ultimately show ?thesis
      using root by (intro query_returns) simp_all
  qed
  show ?thesis using res rng ret by blast
qed

theorem transparency_slot_excluded_witness:
  "Palette_new uninit_zero one_pixel_memory None 0 1 1 1 False = Some one_pixel_palette \<and>
   r one_pixel_palette ! 0 = 0 \<and> g one_pixel_palette ! 0 = 0 \<and> b one_pixel_palette ! 0 = 0 \<and>
   tree_split_elt one_pixel_palette ! (2 ^ (1 - 1)) = 0 \<and>
   tree_split one_pixel_palette ! (2 ^ (1 - 1)) = 0 \<and>
   get_closest_pallete_color one_pixel_palette 200 100 50 (0, 1000000) 1 = Some (1, 332) \<and>
   (1::int) \<le> 1 \<and> (1::int) \<le> 2 ^ 1 - 1 \<and> axes_ok uninit_zero"
proof -
  have q: "get_closest_pallete_color one_pixel_palette 200 100 50 (0, 1000000) 1 = Some (1, 332)"
    by (simp add: get_closest_pallete_color.simps one_pixel_palette_def array_at_def
        transparency_index_def)
  have a: "axes_ok uninit_zero"
    by (simp add: axes_ok_def uninit_zero_def)
  show ?thesis
    using q a one_pixel_palette_built
      transparency_slot_excluded[OF one_pixel_palette_built, of 0 200 100 50]
    by simp
qed

theorem transparency_slot_counterexample:
  "Palette_new uninit_zero one_pixel_memory None 0 1 1 1 False = Some one_pixel_palette \<and>
   get_closest_pallete_color one_pixel_palette 1000005 6 7 (0, 1000000) 1 = Some (0, 1000000)"
  using one_pixel_palette_built
  by (simp add: get_closest_pallete_color.simps one_pixel_palette_def array_at_def
      transparency_index_def)


section \<open>The Floyd-Steinberg quantizer\<close>


lemma for_each_preserves:
  assumes "for_each xs body s = Some s'" and "I s"
    and "\<And>i s s'. I s \<Longrightarrow> body i s = Some s' \<Longrightarrow> I s'"
  shows "I s'"
  using assms(1,2)
proof (induction xs arbitrary: s)
  case Nil
  then show ?case by simp
next
  case (Cons x xs)
  then obtain s1 where s1: "body x s = Some s1" "for_each xs body s1 = Some s'"
    by (auto split: option.splits)
  from assms(3)[OF Cons.prems(2) s1(1)] Cons.IH[OF s1(2)] show ?case by simp
qed



















lemmas dither_eval = dither_image_def dither_pass_def dither_pixel_def propagate_def add_clamped_def
  err_share_def i32_def quantloc_7_def quantloc_3_def quantloc_5_def quantloc_1_def









subsection \<open>The previous-frame buffer and the dependence on unwritten palette entries\<close>

lemma darkest_palette_built:
  "Palette_new uninit_zero two_pixel_memory None 0 1 2 1 True = Some darkest_palette"
  by (simp add: palette_eval uninit_zero_def two_pixel_memory_def darkest_palette_def Let_def upt_rec)

lemma dither_narrow_frame:
  "dither_image two_pixel_memory None 0 1 1 2 darkest_palette
     = Some (two_pixel_memory(1 := [224, 0, 0, 1, 104, 0, 0, 1]))"
  by (simp add: dither_eval copy_image_def mem_write_def two_pixel_memory_def darkest_palette_def
      get_closest_pallete_color.simps array_at_def transparency_index_def signed_divide_int_def
      upt_rec fun_eq_iff)

text \<open>
  Claim C4 (the code departs from it). A first frame of one column and two rows, with
  pixels (10, 0, 0) and (0, 0, 0), written with dithering at bit depth 1: the palette holds
  the single colour (0, 0, 0) at index 1, both pixels get index 1, and yet the
  previous-frame buffer ends with the colours (224, 0, 0) and (104, 0, 0), because for a
  one-pixel-wide frame the below-left error share is added to the pixel just quantized.
\<close>

theorem previous_frame_buffer_narrow_dither:
  "Palette_new uninit_zero two_pixel_memory None 0 1 2 1 True = Some darkest_palette \<and>
   r darkest_palette ! 1 = 0 \<and> g darkest_palette ! 1 = 0 \<and> b darkest_palette ! 1 = 0 \<and>
   map_option (\<lambda>(ok, w, m, s). (ok, m 1))
     (Writer_write_frame uninit_zero (replicate 256 0) (example_writer, two_pixel_memory, fresh_sink)
        0 1 2 0 1 True)
     = Some (True, [224, 0, 0, 1, 104, 0, 0, 1])"
proof -
  obtain out where lzw: "write_lzw_image (replicate 256 0) (contents fresh_sink)
      (two_pixel_memory(1 := [224, 0, 0, 1, 104, 0, 0, 1])) 1 0 0 1 2 0 darkest_palette = Some out"
  proof -
    have "bit_depth darkest_palette \<le> 8" "length (r darkest_palette) = 256"
      "length (g darkest_palette) = 256" "length (b darkest_palette) = 256"
      "length (replicate 256 (0 :: u8)) = 256"
      by (simp_all add: darkest_palette_def)
    from write_lzw_image_returns[OF this] show ?thesis using that by blast
  qed
  have "Writer_write_frame uninit_zero (replicate 256 0) (example_writer, two_pixel_memory, fresh_sink)
        0 1 2 0 1 True
      = Some (True, example_writer\<lparr>first_frame := False\<rparr>,
              two_pixel_memory(1 := [224, 0, 0, 1, 104, 0, 0, 1]), fresh_sink\<lparr>contents := out\<rparr>)"
    using lzw
    by (simp del: One_nat_def
        add: Writer_write_frame_def example_writer_def darkest_palette_built dither_narrow_frame)
  then show ?thesis
    using darkest_palette_built by (simp add: darkest_palette_def)
qed

lemma sparse_palette_built:
  "Palette_new uninit_zero one_pixel_memory None 0 1 1 2 False = Some (sparse_palette 0)"
  "Palette_new uninit_grey one_pixel_memory None 0 1 1 2 False = Some (sparse_palette 85)"
  by (simp_all add: palette_eval uninit_zero_def uninit_grey_def one_pixel_memory_def
      sparse_palette_def Let_def upt_rec)

lemma sparse_palette_threshold:
  "threshold_image one_pixel_memory None 0 1 1 1 (sparse_palette v)
     = Some (one_pixel_memory(1 := [5, 6, 7, 3]))"
  by (simp add: threshold_eval one_pixel_memory_def sparse_palette_def fun_eq_iff)

lemma sparse_palette_lzw:
  "write_lzw_image (replicate 256 0) [] (one_pixel_memory(1 := [5, 6, 7, 3])) 1 0 0 1 1 0
      (sparse_palette 0)
     = Some [33, 249, 4, 5, 0, 0, 0, 0, 44, 0, 0, 0, 0, 1, 0, 1, 0, 129,
             0, 0, 0, 0, 0, 0, 0, 0, 0, 5, 6, 7, 2, 2, 28, 11, 0]"
  "write_lzw_image (replicate 256 0) [] (one_pixel_memory(1 := [5, 6, 7, 3])) 1 0 0 1 1 0
      (sparse_palette 85)
     = Some [33, 249, 4, 5, 0, 0, 0, 0, 44, 0, 0, 0, 0, 1, 0, 1, 0, 129,
             0, 0, 0, 85, 85, 85, 85, 85, 85, 5, 6, 7, 2, 2, 28, 11, 0]"
  by code_simp+

text \<open>
  Claim C9 (the code departs from it). The same one-pixel frame of colour (5, 6, 7),
  written as a first frame without dithering at bit depth 2, gives two different byte
  streams when the memory that the local \<open>Palette\<close> occupies held zeros and when it held
  the byte 85: the palette entries 1 and 2 receive no pixel, are never written by the
  constructor, and are copied into the local colour table.
\<close>

theorem output_depends_on_uninitialised_palette:
  "map_option (\<lambda>(ok, w, m, s). contents s)
     (Writer_write_frame uninit_zero (replicate 256 0) (example_writer, one_pixel_memory, fresh_sink)
        0 1 1 0 2 False)
     = Some [33, 249, 4, 5, 0, 0, 0, 0, 44, 0, 0, 0, 0, 1, 0, 1, 0, 129,
             0, 0, 0, 0, 0, 0, 0, 0, 0, 5, 6, 7, 2, 2, 28, 11, 0] \<and>
   map_option (\<lambda>(ok, w, m, s). contents s)
     (Writer_write_frame uninit_grey (replicate 256 0) (example_writer, one_pixel_memory, fresh_sink)
        0 1 1 0 2 False)
     = Some [33, 249, 4, 5, 0, 0, 0, 0, 44, 0, 0, 0, 0, 1, 0, 1, 0, 129,
             0, 0, 0, 85, 85, 85, 85, 85, 85, 5, 6, 7, 2, 2, 28, 11, 0]"
  by (simp del: One_nat_def
      add: Writer_write_frame_def example_writer_def fresh_sink_def sparse_palette_built
      sparse_palette_threshold sparse_palette_lzw)

end
